theory Spec2Isabelle
  imports Complex_Main "HOL-Library.Word"
begin

section \<open>Entity selection plugin (SelectEntities) of gz-sim\<close>

text \<open>
  The plugin keeps the private data of \<^verbatim>\<open>SelectEntitiesPrivate\<close> and is driven by
  \<^verbatim>\<open>SelectEntities::eventFilter\<close>. The rendering scene, the keyboard and the
  application window belong to the host; what the plugin reads from them is a parameter
  of the model (\<open>Host\<close>), what it sends to them is appended to a trace.
\<close>

subsection \<open>Identifiers and user data\<close>

text \<open>\<^verbatim>\<open>Entity\<close> is \<^verbatim>\<open>uint64_t\<close>; a rendering id (\<^verbatim>\<open>Visual::Id()\<close>) is
  \<^verbatim>\<open>unsigned int\<close>; the \<^verbatim>\<open>int\<close> read from the user data is 32 bits wide.\<close>

type_synonym Entity = "64 word"
type_synonym RenderId = "32 word"

text \<open>Modelled from the spec: \<^verbatim>\<open>kNullEntity\<close> is declared in
  \<^verbatim>\<open>ignition/gazebo/Entity.hh\<close>, which is not among the sources. The glossary makes an
  entity a numeric identifier of the host ECS; the null entity is the identifier 0. No
  general theorem below unfolds this value.\<close>

definition kNullEntity :: Entity where
  "kNullEntity = 0"

text \<open>\<^verbatim>\<open>rendering::Variant\<close> is a \<^verbatim>\<open>std::variant\<close> with an \<^verbatim>\<open>int\<close> alternative among
  others; the plugin only ever asks for the \<^verbatim>\<open>int\<close>.\<close>

datatype Variant = VariantInt "32 word" | VariantOther

text \<open>What ends a call abnormally: a member call through a null pointer, and the exception
  of \<^verbatim>\<open>std::get\<close>, which nothing in the plugin catches. A call returns \<open>Inl\<close> of the fault
  or \<open>Inr\<close> of the new state.\<close>

datatype Fault = NullPointerDereference | BadVariantAccess

text \<open>\<^verbatim>\<open>std::get<int>\<close>: throws \<^verbatim>\<open>std::bad_variant_access\<close> when the variant holds
  another alternative.\<close>

definition std_get_int :: "Variant \<Rightarrow> Fault + 32 word" where
  "std_get_int x = (case x of VariantInt n \<Rightarrow> Inr n | VariantOther \<Rightarrow> Inl BadVariantAccess)"

subsection \<open>The host: scene, visuals, camera, keyboard\<close>

type_synonym Vector2i = "int \<times> int"

datatype AxisAlignedBox = AxisAlignedBox (Min: "real \<times> real \<times> real") (Max: "real \<times> real \<times> real")

record MouseEvent =
  Pos :: Vector2i

record Visual =
  VisualId :: RenderId
  UserData :: "string \<Rightarrow> Variant"
  LocalBoundingBox :: AxisAlignedBox

type_synonym CameraPtr = nat
type_synonym ScenePtr = nat

text \<open>A scene as the plugin queries it. \<open>SensorByName\<close> is the result of the
  \<^verbatim>\<open>dynamic_pointer_cast<rendering::Camera>\<close> of the sensor found, \<open>VisualById\<close> the
  result of the cast of the node found to \<^verbatim>\<open>rendering::Visual\<close>; \<open>None\<close> is the null
  pointer. \<open>Material\<close> tells whether a material of that name exists.\<close>

record Scene =
  SensorByName :: "string \<Rightarrow> CameraPtr option"
  VisualAt :: "CameraPtr option \<Rightarrow> Vector2i \<Rightarrow> Visual option"
  VisualById :: "RenderId \<Rightarrow> Visual option"
  Material :: "string \<Rightarrow> bool"

text \<open>What the host answers during one call of the event filter: the scene of the first
  render engine, the object behind a scene pointer, and whether
  \<^verbatim>\<open>QGuiApplication::keyboardModifiers() & Qt::ControlModifier\<close> is set.\<close>

record Host =
  sceneFromFirstRenderEngine :: "ScenePtr option"
  sceneObject :: "ScenePtr \<Rightarrow> Scene"
  keyboardCtrl :: bool

subsection \<open>What the plugin sends to the host\<close>

text \<open>Modelled from the spec: the selection-change events broadcast to the rest of the
  application are declared in \<^verbatim>\<open>ignition/gazebo/gui/GuiEvents.hh\<close>, which is not among
  the sources. An event is kept as the constructor arguments the plugin passes:
  \<^verbatim>\<open>EntitiesSelected(entities, fromUser = false)\<close> and
  \<^verbatim>\<open>DeselectAllEntities(fromUser = false)\<close>.\<close>

datatype GuiEvent =
    EntitiesSelected "Entity list" bool
  | DeselectAllEntitiesEvent bool

text \<open>The calls that leave the plugin: \<^verbatim>\<open>App()->sendEvent\<close>, the two log streams, the
  ray cast \<^verbatim>\<open>scene->VisualAt\<close> with its result, \<^verbatim>\<open>scene->CreateMaterial\<close> and
  \<^verbatim>\<open>_visual->AddChild\<close> of a new wire-box visual.\<close>

datatype Effect =
    SendEvent GuiEvent
  | IgnErr string
  | StdErr string
  | SceneVisualAt "CameraPtr option" Vector2i "Visual option"
  | SceneCreateMaterial string
  | VisualAddChild RenderId

subsection \<open>Private data\<close>

record SelectionHelper =
  selectEntity :: Entity
  deselectAll :: bool
  sendEvent :: bool

definition SelectionHelper_default :: SelectionHelper where
  "SelectionHelper_default = \<lparr>selectEntity = kNullEntity, deselectAll = False, sendEvent = False\<rparr>"

text \<open>The visual that carries a wire box (\<^verbatim>\<open>wireBox->Parent()\<close>).\<close>

record WireBoxVisual =
  Visible :: bool
  InheritScale :: bool
  MaterialName :: string

record WireBox =
  Box :: AxisAlignedBox
  Parent :: "WireBoxVisual option"

text \<open>The members of \<^verbatim>\<open>SelectEntitiesPrivate\<close>, and \<open>trace\<close>: what the plugin has sent
  to the host so far, oldest first (not a member of the class).\<close>

record SelectEntitiesPrivate =
  selectionHelper :: SelectionHelper
  selectedEntities :: "Entity list"
  scene :: "ScenePtr option"
  wireBoxes :: "Entity \<rightharpoonup> WireBox"
  mouseEvent :: MouseEvent
  mouseDirty :: bool
  camera :: "CameraPtr option"
  transformControlActive :: bool
  trace :: "Effect list"

text \<open>The state after the constructor: the default member initialisers.\<close>

definition SelectEntitiesPrivate_new :: SelectEntitiesPrivate where
  "SelectEntitiesPrivate_new =
     \<lparr>selectionHelper = SelectionHelper_default, selectedEntities = [], scene = None,
      wireBoxes = Map.empty, mouseEvent = \<lparr>Pos = (0, 0)\<rparr>, mouseDirty = False,
      camera = None, transformControlActive = False, trace = []\<rparr>"

subsection \<open>Operations\<close>

text \<open>\<^verbatim>\<open>Entity entityId = kNullEntity; if (_visual) entityId =
  std::get<int>(_visual->UserData("gazebo-entity"));\<close> The \<^verbatim>\<open>int\<close> is converted to
  \<^verbatim>\<open>uint64_t\<close> with sign extension.\<close>

definition gazeboEntity :: "Visual \<Rightarrow> Fault + Entity" where
  "gazeboEntity v =
     (case std_get_int (UserData v ''gazebo-entity'') of
        Inl f \<Rightarrow> Inl f
      | Inr n \<Rightarrow> Inr (scast n))"

definition entityIdOf :: "Visual option \<Rightarrow> Fault + Entity" where
  "entityIdOf visual = (case visual of None \<Rightarrow> Inr kNullEntity | Some v \<Rightarrow> gazeboEntity v)"

definition LowlightNode :: "SelectEntitiesPrivate \<Rightarrow> Visual option \<Rightarrow> Fault + SelectEntitiesPrivate" where
  "LowlightNode s visual =
     (case entityIdOf visual of
        Inl f \<Rightarrow> Inl f
      | Inr entityId \<Rightarrow>
          (case wireBoxes s entityId of
             None \<Rightarrow> Inr s
           | Some wireBox \<Rightarrow>
               (case Parent wireBox of
                  None \<Rightarrow> Inr s
                | Some visParent \<Rightarrow>
                    Inr (s\<lparr>wireBoxes := (wireBoxes s)(entityId \<mapsto>
                           wireBox\<lparr>Parent := Some (visParent\<lparr>Visible := False\<rparr>)\<rparr>)\<rparr>))))"

definition HighlightNode :: "Host \<Rightarrow> SelectEntitiesPrivate \<Rightarrow> Visual option \<Rightarrow> Fault + SelectEntitiesPrivate" where
  "HighlightNode h s visual =
     (case entityIdOf visual of
        Inl f \<Rightarrow> Inl f
      | Inr entityId \<Rightarrow>
          (case wireBoxes s entityId of
             None \<Rightarrow>
               (case scene s of
                  None \<Rightarrow> Inl NullPointerDereference
                | Some p \<Rightarrow>
                    (let s1 = (if Material (sceneObject h p) ''highlight_material'' then s
                               else s\<lparr>trace := trace s @ [SceneCreateMaterial ''highlight_material'']\<rparr>)
                     in case visual of
                          None \<Rightarrow> Inl NullPointerDereference
                        | Some v \<Rightarrow>
                            Inr (s1\<lparr>wireBoxes := (wireBoxes s1)(entityId \<mapsto>
                                       \<lparr>Box = LocalBoundingBox v,
                                        Parent = Some \<lparr>Visible = True, InheritScale = False,
                                                       MaterialName = ''highlight_material''\<rparr>\<rparr>),
                                     trace := trace s1 @ [VisualAddChild (VisualId v)]\<rparr>)))
           | Some wireBox \<Rightarrow>
               (case visual of
                  None \<Rightarrow> Inl NullPointerDereference
                | Some v \<Rightarrow>
                    (let wireBox1 = wireBox\<lparr>Box := LocalBoundingBox v\<rparr>
                     in Inr (s\<lparr>wireBoxes := (wireBoxes s)(entityId \<mapsto>
                                  (case Parent wireBox1 of
                                     None \<Rightarrow> wireBox1
                                   | Some visParent \<Rightarrow>
                                       wireBox1\<lparr>Parent := Some (visParent\<lparr>Visible := True\<rparr>)\<rparr>))\<rparr>)))))"

definition SetSelectedEntity :: "Host \<Rightarrow> SelectEntitiesPrivate \<Rightarrow> Visual option \<Rightarrow> Fault + SelectEntitiesPrivate" where
  "SetSelectedEntity h s visual =
     (case entityIdOf visual of
        Inl f \<Rightarrow> Inl f
      | Inr entityId \<Rightarrow>
          if entityId = kNullEntity then Inr s
          else
            (case visual of
               None \<Rightarrow> Inl NullPointerDereference
             | Some v \<Rightarrow>
                 (case HighlightNode h (s\<lparr>selectedEntities := selectedEntities s @ [ucast (VisualId v)]\<rparr>) visual of
                    Inl f \<Rightarrow> Inl f
                  | Inr s2 \<Rightarrow>
                      Inr (s2\<lparr>trace := trace s2 @ [SendEvent (EntitiesSelected (selectedEntities s2) True)]\<rparr>))))"

text \<open>The loop of \<^verbatim>\<open>DeselectAllEntities\<close> over the selected identifiers;
  \<^verbatim>\<open>VisualById\<close> takes an \<^verbatim>\<open>unsigned int\<close>, so the identifier is truncated.\<close>

fun DeselectAllEntities_loop :: "Scene \<Rightarrow> SelectEntitiesPrivate \<Rightarrow> Entity list \<Rightarrow> Fault + SelectEntitiesPrivate" where
  "DeselectAllEntities_loop sc s [] = Inr s"
| "DeselectAllEntities_loop sc s (entity # rest) =
     (case LowlightNode s (VisualById sc (ucast entity)) of
        Inl f \<Rightarrow> Inl f
      | Inr s1 \<Rightarrow> DeselectAllEntities_loop sc s1 rest)"

definition DeselectAllEntities :: "Host \<Rightarrow> SelectEntitiesPrivate \<Rightarrow> Fault + SelectEntitiesPrivate" where
  "DeselectAllEntities h s =
     (case scene s of
        None \<Rightarrow> Inr s
      | Some p \<Rightarrow>
          (case DeselectAllEntities_loop (sceneObject h p) s (selectedEntities s) of
             Inl f \<Rightarrow> Inl f
           | Inr s1 \<Rightarrow>
               Inr (s1\<lparr>selectedEntities := [],
                       trace := trace s1 @ [SendEvent (DeselectAllEntitiesEvent True)]\<rparr>)))"

text \<open>\<^verbatim>\<open>std::cerr << "transformControlActive " << transformControlActive << '\n'\<close>:
  a \<^verbatim>\<open>bool\<close> is streamed as 1 or 0.\<close>

definition cerrLine :: "bool \<Rightarrow> string" where
  "cerrLine b = ''transformControlActive '' @ (if b then ''1'' else ''0'') @ [CHR 0x0A]"

definition UpdateSelectedEntity :: "Host \<Rightarrow> SelectEntitiesPrivate \<Rightarrow> Visual option \<Rightarrow> bool \<Rightarrow> Fault + SelectEntitiesPrivate" where
  "UpdateSelectedEntity h s visual sendEv =
     (let s0 = s\<lparr>trace := trace s @ [StdErr (cerrLine (transformControlActive s))]\<rparr>;
          deselectedAll = ((\<not> keyboardCtrl h \<and> selectedEntities s0 \<noteq> []) \<or> transformControlActive s0)
      in case (if deselectedAll then DeselectAllEntities h s0 else Inr s0) of
           Inl f \<Rightarrow> Inl f
         | Inr s1 \<Rightarrow>
             (case SetSelectedEntity h s1 visual of
                Inl f \<Rightarrow> Inl f
              | Inr s2 \<Rightarrow>
                  Inr (if sendEv \<or> deselectedAll
                       then s2\<lparr>trace := trace s2 @ [SendEvent (EntitiesSelected (selectedEntities s2) False)]\<rparr>
                       else s2)))"

definition HandleEntitySelection :: "Host \<Rightarrow> SelectEntitiesPrivate \<Rightarrow> Fault + SelectEntitiesPrivate" where
  "HandleEntitySelection h s =
     (if \<not> mouseDirty s then Inr s
      else
        (let s1 = s\<lparr>mouseDirty := False\<rparr>
         in case scene s1 of
              None \<Rightarrow> Inl NullPointerDereference
            | Some p \<Rightarrow>
                (let visual = VisualAt (sceneObject h p) (camera s1) (Pos (mouseEvent s1));
                     s2 = s1\<lparr>trace := trace s1 @ [SceneVisualAt (camera s1) (Pos (mouseEvent s1)) visual]\<rparr>
                 in case visual of
                      None \<Rightarrow> DeselectAllEntities h s2
                    | Some v \<Rightarrow>
                        (case gazeboEntity v of
                           Inl f \<Rightarrow> Inl f
                         | Inr e \<Rightarrow>
                             (let s3 = s2\<lparr>selectionHelper := (selectionHelper s2)\<lparr>selectEntity := e\<rparr>\<rparr>
                              in if deselectAll (selectionHelper s3) then
                                   (case DeselectAllEntities h s3 of
                                      Inl f \<Rightarrow> Inl f
                                    | Inr s4 \<Rightarrow> Inr (s4\<lparr>selectionHelper := SelectionHelper_default\<rparr>))
                                 else if selectEntity (selectionHelper s3) \<noteq> kNullEntity then
                                   (case UpdateSelectedEntity h s3 visual (sendEvent (selectionHelper s3)) of
                                      Inl f \<Rightarrow> Inl f
                                    | Inr s4 \<Rightarrow> Inr (s4\<lparr>selectionHelper := SelectionHelper_default\<rparr>))
                                 else Inr s3)))))"

definition Initialize :: "Host \<Rightarrow> SelectEntitiesPrivate \<Rightarrow> SelectEntitiesPrivate" where
  "Initialize h s =
     (if scene s = None then
        (case sceneFromFirstRenderEngine h of
           None \<Rightarrow> s
         | Some p \<Rightarrow>
             (let cam = SensorByName (sceneObject h p) ''Scene3DCamera'';
                  s1 = s\<lparr>scene := Some p, camera := cam\<rparr>
              in if cam = None
                 then s1\<lparr>trace := trace s1 @ [IgnErr ''Camera is not available'']\<rparr>
                 else s1))
      else s)"

text \<open>The events \<^verbatim>\<open>eventFilter\<close> tells apart; every other event type is \<open>OtherEvent\<close>.
  The value it returns is that of \<^verbatim>\<open>QObject::eventFilter\<close> and does not depend on the
  plugin; it is left out.\<close>

datatype Event =
    LeftClickOnScene MouseEvent
  | Render
  | TransformControlMode bool
  | OtherEvent

definition eventFilter :: "Host \<Rightarrow> SelectEntitiesPrivate \<Rightarrow> Event \<Rightarrow> Fault + SelectEntitiesPrivate" where
  "eventFilter h s ev =
     (case ev of
        LeftClickOnScene m \<Rightarrow> Inr (s\<lparr>mouseEvent := m, mouseDirty := True\<rparr>)
      | Render \<Rightarrow> HandleEntitySelection h (Initialize h s)
      | TransformControlMode b \<Rightarrow> Inr (s\<lparr>transformControlActive := b\<rparr>)
      | OtherEvent \<Rightarrow> Inr s)"

text \<open>A session: the events the filter receives, each with what the host answers while
  it is handled. A fault ends the session.\<close>

fun run :: "SelectEntitiesPrivate \<Rightarrow> (Host \<times> Event) list \<Rightarrow> Fault + SelectEntitiesPrivate" where
  "run s [] = Inr s"
| "run s ((h, ev) # rest) =
     (case eventFilter h s ev of
        Inl f \<Rightarrow> Inl f
      | Inr s1 \<Rightarrow> run s1 rest)"

subsection \<open>Notions used to state the properties\<close>

text \<open>What \<^verbatim>\<open>LowlightNode\<close> does to a wire box: the parent visual, if there is one, is
  made invisible; nothing else changes.\<close>

definition hideBox :: "WireBox \<Rightarrow> WireBox" where
  "hideBox wb = wb\<lparr>Parent := map_option (\<lambda>p. p\<lparr>Visible := False\<rparr>) (Parent wb)\<rparr>"

definition holdsInt :: "Variant \<Rightarrow> bool" where
  "holdsInt x = (case x of VariantInt n \<Rightarrow> True | VariantOther \<Rightarrow> False)"

text \<open>Every selected identifier that the scene still resolves to a visual carries an
  \<^verbatim>\<open>int\<close> under "gazebo-entity", so that \<^verbatim>\<open>std::get<int>\<close> in \<^verbatim>\<open>LowlightNode\<close>
  does not throw.\<close>

definition entitiesReadable :: "Scene \<Rightarrow> Entity list \<Rightarrow> bool" where
  "entitiesReadable sc ids =
     list_all (\<lambda>entity. case VisualById sc (ucast entity) of
                           None \<Rightarrow> True
                         | Some v \<Rightarrow> holdsInt (UserData v ''gazebo-entity'')) ids"

text \<open>A wire box whose parent visual, if there is one, is visible.\<close>

definition boxShown :: "WireBox \<Rightarrow> bool" where
  "boxShown wb = (case Parent wb of None \<Rightarrow> True | Some q \<Rightarrow> Visible q)"

text \<open>The wire-box keys that the loop of \<^verbatim>\<open>DeselectAllEntities\<close> passes to
  \<^verbatim>\<open>LowlightNode\<close>, in order: for a selected identifier that the scene resolves to a
  visual, the entity that visual carries; for one it does not resolve, \<^verbatim>\<open>kNullEntity\<close>.
  The list ends where \<^verbatim>\<open>std::get<int>\<close> throws.\<close>

fun lowlitKeys :: "Scene \<Rightarrow> Entity list \<Rightarrow> Entity list" where
  "lowlitKeys sc [] = []"
| "lowlitKeys sc (entity # rest) =
     (case entityIdOf (VisualById sc (ucast entity)) of
        Inl f \<Rightarrow> []
      | Inr e \<Rightarrow> e # lowlitKeys sc rest)"

text \<open>The visual under the recorded click position, as the render callback's ray cast
  finds it: the scene and camera are those that \<^verbatim>\<open>Initialize\<close> leaves.\<close>

definition clickHit :: "Host \<Rightarrow> SelectEntitiesPrivate \<Rightarrow> Visual option" where
  "clickHit h s =
     (case scene (Initialize h s) of
        None \<Rightarrow> None
      | Some p \<Rightarrow> VisualAt (sceneObject h p) (camera (Initialize h s)) (Pos (mouseEvent s)))"

text \<open>Reading the trace: a selection event sent on behalf of the user (the one
  \<^verbatim>\<open>SetSelectedEntity\<close> sends), a ray cast, and the result of the first ray cast.\<close>

fun isUserSelection :: "Effect \<Rightarrow> bool" where
  "isUserSelection (SendEvent (EntitiesSelected ids fromUser)) = fromUser"
| "isUserSelection _ = False"

fun isRayCast :: "Effect \<Rightarrow> bool" where
  "isRayCast (SceneVisualAt c pos r) = True"
| "isRayCast _ = False"

fun rayCastResult :: "Effect list \<Rightarrow> Visual option" where
  "rayCastResult [] = None"
| "rayCastResult (SceneVisualAt c pos r # rest) = r"
| "rayCastResult (x # rest) = rayCastResult rest"

text \<open>A render callback that handles a click made with Control held, the transform
  control being inactive, on a visual whose identifier is already in the selection.\<close>

definition reselects :: "Host \<Rightarrow> SelectEntitiesPrivate \<Rightarrow> Event \<Rightarrow> bool" where
  "reselects h s ev =
     (ev = Render \<and> mouseDirty s \<and> keyboardCtrl h \<and> \<not> transformControlActive s \<and>
      (case scene (Initialize h s) of
         None \<Rightarrow> False
       | Some p \<Rightarrow>
           (case VisualAt (sceneObject h p) (camera (Initialize h s)) (Pos (mouseEvent s)) of
              None \<Rightarrow> False
            | Some v \<Rightarrow> ucast (VisualId v) \<in> set (selectedEntities s))))"

fun reselectFree :: "SelectEntitiesPrivate \<Rightarrow> (Host \<times> Event) list \<Rightarrow> bool" where
  "reselectFree s [] = True"
| "reselectFree s ((h, ev) # rest) =
     (\<not> reselects h s ev \<and>
      (case eventFilter h s ev of Inl f \<Rightarrow> True | Inr s1 \<Rightarrow> reselectFree s1 rest))"

text \<open>The entity selected while one event is handled, read off what the plugin did: its
  ray cast returned a visual, one identifier was appended to the selection list (to the
  list as it was, or to the emptied list), and the new list was broadcast in a selection
  event on behalf of the user. The entity is the one the visual carries. \<open>everSelected\<close>
  collects these over a session.\<close>

definition selectedIn :: "Host \<Rightarrow> SelectEntitiesPrivate \<Rightarrow> Event \<Rightarrow> Entity option" where
  "selectedIn h s ev =
     (case eventFilter h s ev of
        Inl f \<Rightarrow> None
      | Inr s1 \<Rightarrow>
          (let new = drop (length (trace s)) (trace s1)
           in case rayCastResult new of
                None \<Rightarrow> None
              | Some v \<Rightarrow>
                  if SendEvent (EntitiesSelected (selectedEntities s1) True) \<in> set new \<and>
                     selectedEntities s1 \<noteq> [] \<and>
                     butlast (selectedEntities s1) \<in> {[], selectedEntities s}
                  then (case gazeboEntity v of Inl f \<Rightarrow> None | Inr e \<Rightarrow> Some e)
                  else None))"

fun everSelected :: "SelectEntitiesPrivate \<Rightarrow> (Host \<times> Event) list \<Rightarrow> Entity set" where
  "everSelected s [] = {}"
| "everSelected s ((h, ev) # rest) =
     (case eventFilter h s ev of
        Inl f \<Rightarrow> {}
      | Inr s1 \<Rightarrow> set_option (selectedIn h s ev) \<union> everSelected s1 rest)"

subsection \<open>A small scene\<close>

text \<open>Two visuals of simulated objects: rendering id 5 carries entity 9, rendering id 6
  carries entity 10. \<open>vis5_unreadable\<close> is the visual with rendering id 5 once its
  "gazebo-entity" user data no longer holds an \<^verbatim>\<open>int\<close>.\<close>

definition vis5 :: Visual where
  "vis5 = \<lparr>VisualId = 5,
            UserData = (\<lambda>key. if key = ''gazebo-entity'' then VariantInt 9 else VariantOther),
            LocalBoundingBox = AxisAlignedBox (0, 0, 0) (1, 1, 1)\<rparr>"

definition vis6 :: Visual where
  "vis6 = \<lparr>VisualId = 6,
            UserData = (\<lambda>key. if key = ''gazebo-entity'' then VariantInt 10 else VariantOther),
            LocalBoundingBox = AxisAlignedBox (2, 0, 0) (3, 1, 1)\<rparr>"

definition vis5_unreadable :: Visual where
  "vis5_unreadable = \<lparr>VisualId = 5, UserData = (\<lambda>key. VariantOther),
                       LocalBoundingBox = AxisAlignedBox (0, 0, 0) (1, 1, 1)\<rparr>"

text \<open>A scene with a camera in which every ray cast returns \<open>hit\<close> and rendering id 5
  resolves to \<open>v5\<close>; a host that has this scene, with Control held or not; and a host
  without any scene.\<close>

definition demoScene :: "Visual option \<Rightarrow> Visual \<Rightarrow> Scene" where
  "demoScene hit v5 =
     \<lparr>SensorByName = (\<lambda>name. if name = ''Scene3DCamera'' then Some 1 else None),
      VisualAt = (\<lambda>cam pos. hit),
      VisualById = (\<lambda>i. if i = 5 then Some v5 else if i = 6 then Some vis6 else None),
      Material = (\<lambda>name. False)\<rparr>"

definition demoHost :: "bool \<Rightarrow> Visual option \<Rightarrow> Visual \<Rightarrow> Host" where
  "demoHost ctrl hit v5 =
     \<lparr>sceneFromFirstRenderEngine = Some 1, sceneObject = (\<lambda>p. demoScene hit v5), keyboardCtrl = ctrl\<rparr>"

definition noSceneHost :: Host where
  "noSceneHost =
     \<lparr>sceneFromFirstRenderEngine = None, sceneObject = (\<lambda>p. demoScene None vis5), keyboardCtrl = False\<rparr>"

definition click :: Event where
  "click = LeftClickOnScene \<lparr>Pos = (3, 4)\<rparr>"

text \<open>Sessions: a Control-click on visual 5 and its render callback; the same followed by
  a Control-click on visual 6; the first followed by the transform control becoming active
  and a further click; the first followed by a further click. The states they end in.\<close>

definition selectOnce :: "(Host \<times> Event) list" where
  "selectOnce = [(demoHost True (Some vis5) vis5, click), (demoHost True (Some vis5) vis5, Render)]"

definition selectTwo :: "(Host \<times> Event) list" where
  "selectTwo = selectOnce @
     [(demoHost True (Some vis6) vis5, click), (demoHost True (Some vis6) vis5, Render)]"

definition armedSession :: "(Host \<times> Event) list" where
  "armedSession = selectOnce @
     [(demoHost True (Some vis5) vis5, TransformControlMode True), (demoHost True (Some vis5) vis5, click)]"

definition afterSelect5 :: SelectEntitiesPrivate where
  "afterSelect5 = projr (run SelectEntitiesPrivate_new selectOnce)"

definition afterSelectTwo :: SelectEntitiesPrivate where
  "afterSelectTwo = projr (run SelectEntitiesPrivate_new selectTwo)"

definition armedState :: SelectEntitiesPrivate where
  "armedState = projr (run SelectEntitiesPrivate_new armedSession)"

definition clickedAgain :: SelectEntitiesPrivate where
  "clickedAgain = projr (run SelectEntitiesPrivate_new (selectOnce @ [(demoHost True (Some vis5) vis5, click)]))"

text \<open>The states before the first render callback: after a click alone, and after the
  transform control was activated and a click made. The scene pointer is still null.\<close>

definition firstClick :: SelectEntitiesPrivate where
  "firstClick = projr (run SelectEntitiesPrivate_new [(demoHost False None vis5, click)])"

definition armedFirstSession :: "(Host \<times> Event) list" where
  "armedFirstSession =
     [(demoHost True (Some vis6) vis5, TransformControlMode True), (demoHost True (Some vis6) vis5, click)]"

definition armedFirst :: SelectEntitiesPrivate where
  "armedFirst = projr (run SelectEntitiesPrivate_new armedFirstSession)"

section \<open>Properties\<close>

lemmas plugin_defs =
  eventFilter_def HandleEntitySelection_def Initialize_def UpdateSelectedEntity_def
  SetSelectedEntity_def HighlightNode_def DeselectAllEntities_def LowlightNode_def
  entityIdOf_def gazeboEntity_def std_get_int_def kNullEntity_def SelectionHelper_default_def
  SelectEntitiesPrivate_new_def Let_def

lemmas demo_defs =
  vis5_def vis6_def vis5_unreadable_def demoScene_def demoHost_def noSceneHost_def click_def
  selectOnce_def selectTwo_def armedSession_def afterSelect5_def afterSelectTwo_def
  armedState_def clickedAgain_def


lemmas first_click_defs = firstClick_def armedFirstSession_def armedFirst_def

subsection \<open>Lowlighting and deselecting\<close>

lemma hideBox_idem: "hideBox (hideBox wb) = hideBox wb"
  by (cases "Parent wb") (simp_all add: hideBox_def)

lemma LowlightNode_frame:
  assumes "LowlightNode s visual = Inr s'"
  shows "\<exists>wb. s' = s\<lparr>wireBoxes := wb\<rparr> \<and>
              (\<forall>e. wb e = wireBoxes s e \<or> wb e = map_option hideBox (wireBoxes s e))"
proof -
  obtain entityId where e: "entityIdOf visual = Inr entityId"
    using assms by (cases "entityIdOf visual") (simp_all add: LowlightNode_def)
  show ?thesis
  proof (cases "wireBoxes s entityId")
    case None
    with assms e have "s' = s" by (simp add: LowlightNode_def)
    then have "s' = s\<lparr>wireBoxes := wireBoxes s\<rparr>" by simp
    then show ?thesis by blast
  next
    case (Some wireBox)
    show ?thesis
    proof (cases "Parent wireBox")
      case None
      with assms e Some have "s' = s\<lparr>wireBoxes := wireBoxes s\<rparr>" by (simp add: LowlightNode_def)
      then show ?thesis by blast
    next
      case (Some visParent)
      with assms e \<open>wireBoxes s entityId = Some wireBox\<close>
      have "s' = s\<lparr>wireBoxes := (wireBoxes s)(entityId \<mapsto> hideBox wireBox)\<rparr>"
        by (simp add: LowlightNode_def hideBox_def)
      moreover have "\<forall>e. ((wireBoxes s)(entityId \<mapsto> hideBox wireBox)) e = wireBoxes s e
                       \<or> ((wireBoxes s)(entityId \<mapsto> hideBox wireBox)) e = map_option hideBox (wireBoxes s e)"
        using \<open>wireBoxes s entityId = Some wireBox\<close> by simp
      ultimately show ?thesis by blast
    qed
  qed
qed

lemma LowlightNode_ok:
  "(case visual of None \<Rightarrow> True | Some v \<Rightarrow> holdsInt (UserData v ''gazebo-entity''))
   \<Longrightarrow> \<exists>s'. LowlightNode s visual = Inr s'"
  by (auto simp: LowlightNode_def entityIdOf_def gazeboEntity_def std_get_int_def holdsInt_def
           split: option.splits Variant.splits)

lemma LowlightNode_bad:
  "visual = Some v \<Longrightarrow> \<not> holdsInt (UserData v ''gazebo-entity'')
   \<Longrightarrow> LowlightNode s visual = Inl BadVariantAccess"
  by (auto simp: LowlightNode_def entityIdOf_def gazeboEntity_def std_get_int_def holdsInt_def
           split: option.splits Variant.splits)

lemma loop_frame:
  "DeselectAllEntities_loop sc s ids = Inr s' \<Longrightarrow>
   \<exists>wb. s' = s\<lparr>wireBoxes := wb\<rparr> \<and>
        (\<forall>e. wb e = wireBoxes s e \<or> wb e = map_option hideBox (wireBoxes s e))"
proof (induction ids arbitrary: s)
  case Nil
  then have "s' = s\<lparr>wireBoxes := wireBoxes s\<rparr>" by simp
  then show ?case by blast
next
  case (Cons entity rest)
  then obtain s1 where l: "LowlightNode s (VisualById sc (ucast entity)) = Inr s1"
    and r: "DeselectAllEntities_loop sc s1 rest = Inr s'"
    by (cases "LowlightNode s (VisualById sc (ucast entity))") simp_all
  from LowlightNode_frame [OF l] obtain wb1 where
    s1: "s1 = s\<lparr>wireBoxes := wb1\<rparr>"
    and w1: "\<forall>e. wb1 e = wireBoxes s e \<or> wb1 e = map_option hideBox (wireBoxes s e)" by blast
  from Cons.IH [OF r] obtain wb2 where
    s2: "s' = s1\<lparr>wireBoxes := wb2\<rparr>"
    and w2: "\<forall>e. wb2 e = wireBoxes s1 e \<or> wb2 e = map_option hideBox (wireBoxes s1 e)" by blast
  have "s' = s\<lparr>wireBoxes := wb2\<rparr>" using s1 s2 by simp
  moreover have "\<forall>e. wb2 e = wireBoxes s e \<or> wb2 e = map_option hideBox (wireBoxes s e)"
  proof
    fix e
    show "wb2 e = wireBoxes s e \<or> wb2 e = map_option hideBox (wireBoxes s e)"
      using w1 [rule_format, of e] w2 [rule_format, of e] s1
      by (cases "wireBoxes s e") (auto simp: hideBox_idem)
  qed
  ultimately show ?case by blast
qed

lemma loop_ok:
  "entitiesReadable sc ids \<Longrightarrow> \<exists>s'. DeselectAllEntities_loop sc s ids = Inr s'"
proof (induction ids arbitrary: s)
  case Nil
  then show ?case by simp
next
  case (Cons entity rest)
  then have "case VisualById sc (ucast entity) of None \<Rightarrow> True | Some v \<Rightarrow> holdsInt (UserData v ''gazebo-entity'')"
    and rest: "entitiesReadable sc rest"
    by (simp_all add: entitiesReadable_def)
  from LowlightNode_ok [OF this(1)] obtain s1 where "LowlightNode s (VisualById sc (ucast entity)) = Inr s1"
    by blast
  with Cons.IH [OF rest, of s1] show ?case by simp
qed

lemma loop_bad:
  "\<not> entitiesReadable sc ids \<Longrightarrow> DeselectAllEntities_loop sc s ids = Inl BadVariantAccess"
proof (induction ids arbitrary: s)
  case Nil
  then show ?case by (simp add: entitiesReadable_def)
next
  case (Cons entity rest)
  show ?case
  proof (cases "LowlightNode s (VisualById sc (ucast entity))")
    case (Inl f)
    then have "f = BadVariantAccess"
      by (auto simp: LowlightNode_def entityIdOf_def gazeboEntity_def std_get_int_def
               split: option.splits Variant.splits sum.splits)
    with Inl show ?thesis by simp
  next
    case (Inr s1)
    have "case VisualById sc (ucast entity) of None \<Rightarrow> True | Some v \<Rightarrow> holdsInt (UserData v ''gazebo-entity'')"
    proof (cases "VisualById sc (ucast entity)")
      case None
      then show ?thesis by simp
    next
      case (Some v)
      have "holdsInt (UserData v ''gazebo-entity'')"
      proof (rule ccontr)
        assume "\<not> holdsInt (UserData v ''gazebo-entity'')"
        from LowlightNode_bad [OF Some this, of s] Inr show False by simp
      qed
      with Some show ?thesis by simp
    qed
    with Cons.prems have "\<not> entitiesReadable sc rest" by (simp add: entitiesReadable_def)
    from Cons.IH [OF this, of s1] Inr show ?thesis by simp
  qed
qed

lemma DeselectAllEntities_frame:
  assumes "DeselectAllEntities h s = Inr s'" and "scene s = Some p"
  shows "\<exists>wb. s' = s\<lparr>selectedEntities := [], wireBoxes := wb,
                     trace := trace s @ [SendEvent (DeselectAllEntitiesEvent True)]\<rparr> \<and>
              (\<forall>e. wb e = wireBoxes s e \<or> wb e = map_option hideBox (wireBoxes s e))"
proof -
  from assms obtain s1 where l: "DeselectAllEntities_loop (sceneObject h p) s (selectedEntities s) = Inr s1"
    and s': "s' = s1\<lparr>selectedEntities := [], trace := trace s1 @ [SendEvent (DeselectAllEntitiesEvent True)]\<rparr>"
    by (cases "DeselectAllEntities_loop (sceneObject h p) s (selectedEntities s)")
       (auto simp: DeselectAllEntities_def)
  from loop_frame [OF l] obtain wb where "s1 = s\<lparr>wireBoxes := wb\<rparr>"
    and w: "\<forall>e. wb e = wireBoxes s e \<or> wb e = map_option hideBox (wireBoxes s e)" by blast
  with s' have "s' = s\<lparr>selectedEntities := [], wireBoxes := wb,
                     trace := trace s @ [SendEvent (DeselectAllEntitiesEvent True)]\<rparr>" by simp
  with w show ?thesis by blast
qed

lemma DeselectAllEntities_ok:
  "scene s = Some p \<Longrightarrow> entitiesReadable (sceneObject h p) (selectedEntities s)
   \<Longrightarrow> \<exists>s'. DeselectAllEntities h s = Inr s'"
  using loop_ok [of "sceneObject h p" "selectedEntities s" s]
  by (auto simp: DeselectAllEntities_def)

lemma DeselectAllEntities_bad:
  "scene s = Some p \<Longrightarrow> \<not> entitiesReadable (sceneObject h p) (selectedEntities s)
   \<Longrightarrow> DeselectAllEntities h s = Inl BadVariantAccess"
  using loop_bad [of "sceneObject h p" "selectedEntities s" s]
  by (auto simp: DeselectAllEntities_def)

subsection \<open>Highlighting and selecting\<close>

lemma userSelection_sent:
  "SendEvent (EntitiesSelected ids True) \<in> set k \<Longrightarrow> list_ex isUserSelection k"
  by (induction k) auto

lemma rayCastResult_append:
  "\<not> list_ex isRayCast k \<Longrightarrow> rayCastResult (k @ k') = rayCastResult k'"
  by (induction k rule: rayCastResult.induct) simp_all

lemma HighlightNode_frame:
  assumes "HighlightNode h s (Some v) = Inr s'" and "gazeboEntity v = Inr e"
  shows "\<exists>wb k. s' = s\<lparr>wireBoxes := wb, trace := trace s @ k\<rparr> \<and>
                dom wb = insert e (dom (wireBoxes s)) \<and>
                \<not> list_ex isUserSelection k \<and> \<not> list_ex isRayCast k \<and>
                (\<exists>b. wb e = Some b \<and> boxShown b) \<and>
                (\<forall>e'. e' \<noteq> e \<longrightarrow> wb e' = wireBoxes s e')"
proof (cases "wireBoxes s e")
  case None
  with assms obtain p where p: "scene s = Some p"
    by (cases "scene s") (simp_all add: HighlightNode_def entityIdOf_def)
  let ?k = "(if Material (sceneObject h p) ''highlight_material'' then []
             else [SceneCreateMaterial ''highlight_material'']) @ [VisualAddChild (VisualId v)]"
  let ?wb = "(wireBoxes s)(e \<mapsto> \<lparr>Box = LocalBoundingBox v,
               Parent = Some \<lparr>Visible = True, InheritScale = False, MaterialName = ''highlight_material''\<rparr>\<rparr>)"
  from assms None p have "s' = s\<lparr>wireBoxes := ?wb, trace := trace s @ ?k\<rparr>"
    by (cases "Material (sceneObject h p) ''highlight_material''")
       (auto simp add: HighlightNode_def entityIdOf_def Let_def)
  moreover have "dom ?wb = insert e (dom (wireBoxes s))" by simp
  moreover have "\<not> list_ex isUserSelection ?k" by simp
  moreover have "\<not> list_ex isRayCast ?k" by simp
  moreover have "\<exists>b. ?wb e = Some b \<and> boxShown b" by (simp add: boxShown_def)
  moreover have "\<forall>e'. e' \<noteq> e \<longrightarrow> ?wb e' = wireBoxes s e'" by simp
  ultimately show ?thesis by blast
next
  case (Some wireBox)
  let ?w1 = "wireBox\<lparr>Box := LocalBoundingBox v\<rparr>"
  let ?wb = "(wireBoxes s)(e \<mapsto> (case Parent ?w1 of None \<Rightarrow> ?w1
               | Some visParent \<Rightarrow> ?w1\<lparr>Parent := Some (visParent\<lparr>Visible := True\<rparr>)\<rparr>))"
  from assms Some have "s' = s\<lparr>wireBoxes := ?wb, trace := trace s @ []\<rparr>"
    by (auto simp add: HighlightNode_def entityIdOf_def Let_def)
  moreover have "dom ?wb = insert e (dom (wireBoxes s))" by simp
  moreover have "\<not> list_ex isUserSelection []" "\<not> list_ex isRayCast []" by simp_all
  moreover have "\<exists>b. ?wb e = Some b \<and> boxShown b"
    by (cases "Parent wireBox") (simp_all add: boxShown_def)
  moreover have "\<forall>e'. e' \<noteq> e \<longrightarrow> ?wb e' = wireBoxes s e'" by simp
  ultimately show ?thesis by blast
qed

lemma HighlightNode_ok:
  assumes "scene s = Some p" and "gazeboEntity v = Inr e"
  shows "\<exists>s'. HighlightNode h s (Some v) = Inr s'"
  using assms by (cases "wireBoxes s e") (simp_all add: HighlightNode_def entityIdOf_def Let_def)

lemma SetSelectedEntity_null:
  "gazeboEntity v = Inr e \<Longrightarrow> e = kNullEntity \<Longrightarrow> SetSelectedEntity h s (Some v) = Inr s"
  by (simp add: SetSelectedEntity_def entityIdOf_def)

lemma SetSelectedEntity_frame:
  assumes "SetSelectedEntity h s (Some v) = Inr s'" and "gazeboEntity v = Inr e" and "e \<noteq> kNullEntity"
  shows "\<exists>wb k. s' = s\<lparr>selectedEntities := selectedEntities s @ [ucast (VisualId v)],
                       wireBoxes := wb, trace := trace s @ k\<rparr> \<and>
                dom wb = insert e (dom (wireBoxes s)) \<and>
                list_ex isUserSelection k \<and> \<not> list_ex isRayCast k \<and>
                SendEvent (EntitiesSelected (selectedEntities s @ [ucast (VisualId v)]) True) \<in> set k \<and>
                (\<exists>b. wb e = Some b \<and> boxShown b) \<and>
                (\<forall>e'. e' \<noteq> e \<longrightarrow> wb e' = wireBoxes s e')"
proof -
  let ?s1 = "s\<lparr>selectedEntities := selectedEntities s @ [ucast (VisualId v)]\<rparr>"
  from assms obtain s2 where hl: "HighlightNode h ?s1 (Some v) = Inr s2"
    and s': "s' = s2\<lparr>trace := trace s2 @ [SendEvent (EntitiesSelected (selectedEntities s2) True)]\<rparr>"
    by (cases "HighlightNode h ?s1 (Some v)") (simp_all add: SetSelectedEntity_def entityIdOf_def)
  from HighlightNode_frame [OF hl assms(2)] obtain wb k where
    s2: "s2 = ?s1\<lparr>wireBoxes := wb, trace := trace ?s1 @ k\<rparr>"
    and d: "dom wb = insert e (dom (wireBoxes ?s1))"
    and q: "\<not> list_ex isUserSelection k" "\<not> list_ex isRayCast k"
    and b: "\<exists>b. wb e = Some b \<and> boxShown b"
    and o: "\<forall>e'. e' \<noteq> e \<longrightarrow> wb e' = wireBoxes ?s1 e'" by blast
  let ?k = "k @ [SendEvent (EntitiesSelected (selectedEntities s2) True)]"
  have "s' = s\<lparr>selectedEntities := selectedEntities s @ [ucast (VisualId v)],
               wireBoxes := wb, trace := trace s @ ?k\<rparr>"
    using s' s2 by simp
  moreover have "dom wb = insert e (dom (wireBoxes s))" using d by simp
  moreover have "list_ex isUserSelection ?k" by simp
  moreover have "\<not> list_ex isRayCast ?k" using q by simp
  moreover have "SendEvent (EntitiesSelected (selectedEntities s @ [ucast (VisualId v)]) True) \<in> set ?k"
    using s2 by simp
  moreover have "\<forall>e'. e' \<noteq> e \<longrightarrow> wb e' = wireBoxes s e'" using o by simp
  ultimately show ?thesis using b by blast
qed

lemma hidden_dom:
  "\<forall>e. wb e = m e \<or> wb e = map_option hideBox (m e) \<Longrightarrow> dom wb = dom m"
proof (rule set_eqI)
  fix e
  assume a: "\<forall>e. wb e = m e \<or> wb e = map_option hideBox (m e)"
  from a [rule_format, of e] show "e \<in> dom wb \<longleftrightarrow> e \<in> dom m"
    by (cases "m e") (auto simp: dom_def)
qed

lemma SetSelectedEntity_ok:
  assumes "scene s = Some p" and "gazeboEntity v = Inr e"
  shows "\<exists>s'. SetSelectedEntity h s (Some v) = Inr s'"
proof (cases "e = kNullEntity")
  case True
  with assms show ?thesis by (simp add: SetSelectedEntity_null)
next
  case False
  let ?s1 = "s\<lparr>selectedEntities := selectedEntities s @ [ucast (VisualId v)]\<rparr>"
  have "scene ?s1 = Some p" using assms by simp
  from HighlightNode_ok [OF this assms(2), of h] obtain s2 where "HighlightNode h ?s1 (Some v) = Inr s2"
    by blast
  with assms False show ?thesis by (simp add: SetSelectedEntity_def entityIdOf_def)
qed

lemma UpdateSelectedEntity_frame:
  assumes r: "UpdateSelectedEntity h s (Some v) sendEv = Inr s'"
    and p: "scene s = Some p" and e: "gazeboEntity v = Inr e" and n: "e \<noteq> kNullEntity"
  shows "\<exists>wb k. s' = s\<lparr>selectedEntities :=
                          (if (\<not> keyboardCtrl h \<and> selectedEntities s \<noteq> []) \<or> transformControlActive s
                           then [] else selectedEntities s) @ [ucast (VisualId v)],
                        wireBoxes := wb, trace := trace s @ k\<rparr> \<and>
                dom wb = insert e (dom (wireBoxes s)) \<and>
                list_ex isUserSelection k \<and> \<not> list_ex isRayCast k \<and>
                SendEvent (EntitiesSelected
                   ((if (\<not> keyboardCtrl h \<and> selectedEntities s \<noteq> []) \<or> transformControlActive s
                     then [] else selectedEntities s) @ [ucast (VisualId v)]) True) \<in> set k"
proof -
  let ?err = "StdErr (cerrLine (transformControlActive s))"
  let ?s0 = "s\<lparr>trace := trace s @ [?err]\<rparr>"
  let ?d = "(\<not> keyboardCtrl h \<and> selectedEntities s \<noteq> []) \<or> transformControlActive s"
  from r obtain s1 where d: "(if ?d then DeselectAllEntities h ?s0 else Inr ?s0) = Inr s1"
    by (cases "if ?d then DeselectAllEntities h ?s0 else Inr ?s0")
       (simp_all add: UpdateSelectedEntity_def Let_def)
  from r d obtain s2 where s2: "SetSelectedEntity h s1 (Some v) = Inr s2"
    by (cases "SetSelectedEntity h s1 (Some v)") (simp_all add: UpdateSelectedEntity_def Let_def)
  from r d s2 have s: "s' = (if sendEv \<or> ?d
                  then s2\<lparr>trace := trace s2 @ [SendEvent (EntitiesSelected (selectedEntities s2) False)]\<rparr>
                  else s2)"
    by (simp add: UpdateSelectedEntity_def Let_def)
  have "\<exists>wb1 k1. s1 = s\<lparr>selectedEntities := (if ?d then [] else selectedEntities s),
                          wireBoxes := wb1, trace := trace s @ k1\<rparr> \<and>
                   dom wb1 = dom (wireBoxes s) \<and>
                   \<not> list_ex isRayCast k1"
  proof (cases ?d)
    case True
    with d have dd: "DeselectAllEntities h ?s0 = Inr s1" by simp
    have "scene ?s0 = Some p" using p by simp
    from DeselectAllEntities_frame [OF dd this] obtain wb where
      "s1 = ?s0\<lparr>selectedEntities := [], wireBoxes := wb,
                 trace := trace ?s0 @ [SendEvent (DeselectAllEntitiesEvent True)]\<rparr>"
      and w: "\<forall>e. wb e = wireBoxes ?s0 e \<or> wb e = map_option hideBox (wireBoxes ?s0 e)" by blast
    then have "s1 = s\<lparr>selectedEntities := (if ?d then [] else selectedEntities s), wireBoxes := wb,
                     trace := trace s @ [?err, SendEvent (DeselectAllEntitiesEvent True)]\<rparr>"
      using True by simp
    moreover have "dom wb = dom (wireBoxes s)" using hidden_dom [OF w] by simp
    moreover have "\<not> list_ex isRayCast [?err, SendEvent (DeselectAllEntitiesEvent True)]" by simp
    ultimately show ?thesis by blast
  next
    case False
    with d have "s1 = s\<lparr>selectedEntities := (if ?d then [] else selectedEntities s),
                        wireBoxes := wireBoxes s, trace := trace s @ [?err]\<rparr>"
      by auto
    moreover have "\<not> list_ex isRayCast [?err]" by simp
    ultimately show ?thesis by blast
  qed
  then obtain wb1 k1 where
    s1: "s1 = s\<lparr>selectedEntities := (if ?d then [] else selectedEntities s),
                wireBoxes := wb1, trace := trace s @ k1\<rparr>"
    and d1: "dom wb1 = dom (wireBoxes s)" and q1: "\<not> list_ex isRayCast k1" by blast
  from SetSelectedEntity_frame [OF s2 e n] obtain wb2 k2 where
    s2': "s2 = s1\<lparr>selectedEntities := selectedEntities s1 @ [ucast (VisualId v)],
                 wireBoxes := wb2, trace := trace s1 @ k2\<rparr>"
    and d2: "dom wb2 = insert e (dom (wireBoxes s1))"
    and u2: "list_ex isUserSelection k2" and q2: "\<not> list_ex isRayCast k2"
    and m2: "SendEvent (EntitiesSelected (selectedEntities s1 @ [ucast (VisualId v)]) True) \<in> set k2"
    by blast
  let ?k3 = "if sendEv \<or> ?d then [SendEvent (EntitiesSelected (selectedEntities s2) False)] else []"
  have "s' = s2\<lparr>trace := trace s2 @ ?k3\<rparr>" using s by simp
  then have "s' = s\<lparr>selectedEntities := (if ?d then [] else selectedEntities s) @ [ucast (VisualId v)],
                    wireBoxes := wb2, trace := trace s @ (k1 @ k2 @ ?k3)\<rparr>"
    using s1 s2' by simp
  moreover have "dom wb2 = insert e (dom (wireBoxes s))" using d2 d1 s1 by simp
  moreover have "list_ex isUserSelection (k1 @ k2 @ ?k3)" using u2 by simp
  moreover have "\<not> list_ex isRayCast (k1 @ k2 @ ?k3)" using q1 q2 by simp
  moreover have "SendEvent (EntitiesSelected
                   ((if ?d then [] else selectedEntities s) @ [ucast (VisualId v)]) True)
                 \<in> set (k1 @ k2 @ ?k3)"
    using m2 s1 by simp
  ultimately show ?thesis by blast
qed

lemma UpdateSelectedEntity_ok:
  assumes p: "scene s = Some p" and e: "gazeboEntity v = Inr e"
    and rd: "entitiesReadable (sceneObject h p) (selectedEntities s)"
  shows "\<exists>s'. UpdateSelectedEntity h s (Some v) sendEv = Inr s'"
proof -
  let ?err = "StdErr (cerrLine (transformControlActive s))"
  let ?s0 = "s\<lparr>trace := trace s @ [?err]\<rparr>"
  let ?d = "(\<not> keyboardCtrl h \<and> selectedEntities s \<noteq> []) \<or> transformControlActive s"
  have "scene ?s0 = Some p" "entitiesReadable (sceneObject h p) (selectedEntities ?s0)"
    using p rd by simp_all
  from DeselectAllEntities_ok [OF this] obtain sd where sd: "DeselectAllEntities h ?s0 = Inr sd" by blast
  have "\<exists>s1. (if ?d then DeselectAllEntities h ?s0 else Inr ?s0) = Inr s1"
    using sd by (cases ?d) simp_all
  then obtain s1 where s1: "(if ?d then DeselectAllEntities h ?s0 else Inr ?s0) = Inr s1" by blast
  have "scene s1 = Some p"
  proof (cases ?d)
    case True
    with s1 sd have "s1 = sd" by simp
    with DeselectAllEntities_frame [OF sd \<open>scene ?s0 = Some p\<close>] p show ?thesis by auto
  next
    case False
    with s1 p show ?thesis by auto
  qed
  from SetSelectedEntity_ok [OF this e, of h] obtain s2 where "SetSelectedEntity h s1 (Some v) = Inr s2"
    by blast
  with s1 show ?thesis by (simp add: UpdateSelectedEntity_def Let_def)
qed

lemma UpdateSelectedEntity_bad:
  assumes p: "scene s = Some p"
    and d: "(\<not> keyboardCtrl h \<and> selectedEntities s \<noteq> []) \<or> transformControlActive s"
    and rd: "\<not> entitiesReadable (sceneObject h p) (selectedEntities s)"
  shows "UpdateSelectedEntity h s visual sendEv = Inl BadVariantAccess"
proof -
  let ?s0 = "s\<lparr>trace := trace s @ [StdErr (cerrLine (transformControlActive s))]\<rparr>"
  have "scene ?s0 = Some p" "\<not> entitiesReadable (sceneObject h p) (selectedEntities ?s0)"
    using p rd by simp_all
  from DeselectAllEntities_bad [OF this] have "DeselectAllEntities h ?s0 = Inl BadVariantAccess" .
  with d show ?thesis by (auto simp: UpdateSelectedEntity_def Let_def)
qed

subsection \<open>Handling a click\<close>

lemma HES_idle: "\<not> mouseDirty s \<Longrightarrow> HandleEntitySelection h s = Inr s"
  by (simp add: HandleEntitySelection_def)

lemma HES_null_scene:
  "mouseDirty s \<Longrightarrow> scene s = None \<Longrightarrow> HandleEntitySelection h s = Inl NullPointerDereference"
  by (simp add: HandleEntitySelection_def)

lemma HES_no_hit:
  "mouseDirty s \<Longrightarrow> scene s = Some p \<Longrightarrow>
   VisualAt (sceneObject h p) (camera s) (Pos (mouseEvent s)) = None \<Longrightarrow>
   HandleEntitySelection h s =
     DeselectAllEntities h (s\<lparr>mouseDirty := False,
        trace := trace s @ [SceneVisualAt (camera s) (Pos (mouseEvent s)) None]\<rparr>)"
  by (simp add: HandleEntitySelection_def Let_def)

lemma HES_hit_fault:
  "mouseDirty s \<Longrightarrow> scene s = Some p \<Longrightarrow>
   VisualAt (sceneObject h p) (camera s) (Pos (mouseEvent s)) = Some v \<Longrightarrow>
   gazeboEntity v = Inl f \<Longrightarrow> HandleEntitySelection h s = Inl f"
  by (simp add: HandleEntitySelection_def Let_def)

lemma HES_pending:
  "mouseDirty s \<Longrightarrow> scene s = Some p \<Longrightarrow>
   VisualAt (sceneObject h p) (camera s) (Pos (mouseEvent s)) = Some v \<Longrightarrow>
   gazeboEntity v = Inr e \<Longrightarrow> deselectAll (selectionHelper s) \<Longrightarrow>
   HandleEntitySelection h s =
     (case DeselectAllEntities h (s\<lparr>mouseDirty := False,
              trace := trace s @ [SceneVisualAt (camera s) (Pos (mouseEvent s)) (Some v)],
              selectionHelper := (selectionHelper s)\<lparr>selectEntity := e\<rparr>\<rparr>) of
        Inl f \<Rightarrow> Inl f
      | Inr s4 \<Rightarrow> Inr (s4\<lparr>selectionHelper := SelectionHelper_default\<rparr>))"
  by (simp add: HandleEntitySelection_def Let_def)

lemma HES_select:
  "mouseDirty s \<Longrightarrow> scene s = Some p \<Longrightarrow>
   VisualAt (sceneObject h p) (camera s) (Pos (mouseEvent s)) = Some v \<Longrightarrow>
   gazeboEntity v = Inr e \<Longrightarrow> \<not> deselectAll (selectionHelper s) \<Longrightarrow> e \<noteq> kNullEntity \<Longrightarrow>
   HandleEntitySelection h s =
     (case UpdateSelectedEntity h (s\<lparr>mouseDirty := False,
              trace := trace s @ [SceneVisualAt (camera s) (Pos (mouseEvent s)) (Some v)],
              selectionHelper := (selectionHelper s)\<lparr>selectEntity := e\<rparr>\<rparr>)
            (Some v) (sendEvent (selectionHelper s)) of
        Inl f \<Rightarrow> Inl f
      | Inr s4 \<Rightarrow> Inr (s4\<lparr>selectionHelper := SelectionHelper_default\<rparr>))"
  by (simp add: HandleEntitySelection_def Let_def)

lemma HES_null_entity:
  "mouseDirty s \<Longrightarrow> scene s = Some p \<Longrightarrow>
   VisualAt (sceneObject h p) (camera s) (Pos (mouseEvent s)) = Some v \<Longrightarrow>
   gazeboEntity v = Inr e \<Longrightarrow> \<not> deselectAll (selectionHelper s) \<Longrightarrow> e = kNullEntity \<Longrightarrow>
   HandleEntitySelection h s =
     Inr (s\<lparr>selectionHelper := (selectionHelper s)\<lparr>selectEntity := e\<rparr>,
            mouseDirty := False,
            trace := trace s @ [SceneVisualAt (camera s) (Pos (mouseEvent s)) (Some v)]\<rparr>)"
  by (simp add: HandleEntitySelection_def Let_def)

text \<open>What a call of \<^verbatim>\<open>HandleEntitySelection\<close> that returns has done: nothing, a
  deselect-all, a click on a visual without entity, or a selection.\<close>


lemma HES_outcome:
  assumes r: "HandleEntitySelection h s = Inr s'"
  shows "(\<not> mouseDirty s \<and> s' = s) \<or>
         (mouseDirty s \<and> (\<exists>p wb k helper.
            scene s = Some p \<and>
            \<not> list_ex isUserSelection k \<and>
            rayCastResult k = VisualAt (sceneObject h p) (camera s) (Pos (mouseEvent s)) \<and>
            k = [SceneVisualAt (camera s) (Pos (mouseEvent s))
                   (VisualAt (sceneObject h p) (camera s) (Pos (mouseEvent s))),
                 SendEvent (DeselectAllEntitiesEvent True)] \<and>
            (case VisualAt (sceneObject h p) (camera s) (Pos (mouseEvent s)) of
               None \<Rightarrow> True
             | Some v \<Rightarrow> deselectAll (selectionHelper s) \<and> \<not> isl (gazeboEntity v)) \<and>
            (\<forall>e. wb e = wireBoxes s e \<or> wb e = map_option hideBox (wireBoxes s e)) \<and>
            helper \<in> {SelectionHelper_default, selectionHelper s} \<and>
            s' = s\<lparr>selectionHelper := helper, selectedEntities := [], wireBoxes := wb,
                   mouseDirty := False, trace := trace s @ k\<rparr>)) \<or>
         (mouseDirty s \<and> (\<exists>p v.
            scene s = Some p \<and>
            VisualAt (sceneObject h p) (camera s) (Pos (mouseEvent s)) = Some v \<and>
            gazeboEntity v = Inr kNullEntity \<and> \<not> deselectAll (selectionHelper s) \<and>
            s' = s\<lparr>selectionHelper := (selectionHelper s)\<lparr>selectEntity := kNullEntity\<rparr>,
                   mouseDirty := False,
                   trace := trace s @ [SceneVisualAt (camera s) (Pos (mouseEvent s)) (Some v)]\<rparr>)) \<or>
         (mouseDirty s \<and> (\<exists>p v e wb k.
            scene s = Some p \<and>
            VisualAt (sceneObject h p) (camera s) (Pos (mouseEvent s)) = Some v \<and>
            gazeboEntity v = Inr e \<and> e \<noteq> kNullEntity \<and> \<not> deselectAll (selectionHelper s) \<and>
            list_ex isUserSelection k \<and> rayCastResult k = Some v \<and>
            k \<noteq> [] \<and> hd k = SceneVisualAt (camera s) (Pos (mouseEvent s)) (Some v) \<and>
            \<not> list_ex isRayCast (tl k) \<and>
            SendEvent (EntitiesSelected
               ((if (\<not> keyboardCtrl h \<and> selectedEntities s \<noteq> []) \<or> transformControlActive s
                 then [] else selectedEntities s) @ [ucast (VisualId v)]) True) \<in> set k \<and>
            dom wb = insert e (dom (wireBoxes s)) \<and>
            s' = s\<lparr>selectionHelper := SelectionHelper_default,
                   selectedEntities :=
                     (if (\<not> keyboardCtrl h \<and> selectedEntities s \<noteq> []) \<or> transformControlActive s
                      then [] else selectedEntities s) @ [ucast (VisualId v)],
                   wireBoxes := wb, mouseDirty := False, trace := trace s @ k\<rparr>))"
proof (cases "mouseDirty s")
  case False
  with r show ?thesis by (simp add: HES_idle)
next
  case True
  note dirty = this
  from r dirty obtain p where p: "scene s = Some p"
    by (cases "scene s") (simp_all add: HES_null_scene)
  let ?pos = "Pos (mouseEvent s)"
  let ?visual = "VisualAt (sceneObject h p) (camera s) ?pos"
  show ?thesis
  proof (cases ?visual)
    case None
    let ?s2 = "s\<lparr>mouseDirty := False, trace := trace s @ [SceneVisualAt (camera s) ?pos None]\<rparr>"
    from r have d: "DeselectAllEntities h ?s2 = Inr s'" by (simp add: HES_no_hit [OF dirty p None])
    have "scene ?s2 = Some p" using p by simp
    from DeselectAllEntities_frame [OF d this] obtain wb where
      s': "s' = ?s2\<lparr>selectedEntities := [], wireBoxes := wb,
                   trace := trace ?s2 @ [SendEvent (DeselectAllEntitiesEvent True)]\<rparr>"
      and w: "\<forall>e. wb e = wireBoxes ?s2 e \<or> wb e = map_option hideBox (wireBoxes ?s2 e)" by blast
    let ?k = "[SceneVisualAt (camera s) ?pos None, SendEvent (DeselectAllEntitiesEvent True)]"
    have "s' = s\<lparr>selectionHelper := selectionHelper s, selectedEntities := [], wireBoxes := wb,
                 mouseDirty := False, trace := trace s @ ?k\<rparr>" using s' by simp
    moreover have "\<not> list_ex isUserSelection ?k" by simp
    moreover have "rayCastResult ?k = ?visual" using None by simp
    moreover have "?k = [SceneVisualAt (camera s) ?pos ?visual, SendEvent (DeselectAllEntitiesEvent True)]"
      using None by simp
    moreover have "case ?visual of None \<Rightarrow> True
                   | Some v \<Rightarrow> deselectAll (selectionHelper s) \<and> \<not> isl (gazeboEntity v)"
      using None by simp
    moreover have "\<forall>e. wb e = wireBoxes s e \<or> wb e = map_option hideBox (wireBoxes s e)"
      using w by simp
    ultimately show ?thesis using dirty p by blast
  next
    case (Some v)
    from r obtain e where e: "gazeboEntity v = Inr e"
      by (cases "gazeboEntity v") (simp_all add: HES_hit_fault [OF dirty p Some])
    let ?s3 = "s\<lparr>mouseDirty := False, trace := trace s @ [SceneVisualAt (camera s) ?pos (Some v)],
                 selectionHelper := (selectionHelper s)\<lparr>selectEntity := e\<rparr>\<rparr>"
    have p3: "scene ?s3 = Some p" using p by simp
    show ?thesis
    proof (cases "deselectAll (selectionHelper s)")
      case True
      from r obtain s4 where d: "DeselectAllEntities h ?s3 = Inr s4"
        and s': "s' = s4\<lparr>selectionHelper := SelectionHelper_default\<rparr>"
        by (cases "DeselectAllEntities h ?s3") (simp_all add: HES_pending [OF dirty p Some e True])
      from DeselectAllEntities_frame [OF d p3] obtain wb where
        s4: "s4 = ?s3\<lparr>selectedEntities := [], wireBoxes := wb,
                     trace := trace ?s3 @ [SendEvent (DeselectAllEntitiesEvent True)]\<rparr>"
        and w: "\<forall>e. wb e = wireBoxes ?s3 e \<or> wb e = map_option hideBox (wireBoxes ?s3 e)" by blast
      let ?k = "[SceneVisualAt (camera s) ?pos (Some v), SendEvent (DeselectAllEntitiesEvent True)]"
      have "s' = s\<lparr>selectionHelper := SelectionHelper_default, selectedEntities := [], wireBoxes := wb,
                   mouseDirty := False, trace := trace s @ ?k\<rparr>" using s' s4 by simp
      moreover have "\<not> list_ex isUserSelection ?k" by simp
      moreover have "rayCastResult ?k = ?visual" using Some by simp
      moreover have "?k = [SceneVisualAt (camera s) ?pos ?visual, SendEvent (DeselectAllEntitiesEvent True)]"
        using Some by simp
      moreover have "case ?visual of None \<Rightarrow> True
                     | Some v \<Rightarrow> deselectAll (selectionHelper s) \<and> \<not> isl (gazeboEntity v)"
        using Some True e by simp
      moreover have "\<forall>e. wb e = wireBoxes s e \<or> wb e = map_option hideBox (wireBoxes s e)"
        using w by simp
      ultimately show ?thesis using dirty p by blast
    next
      case False
      note nopending = this
      show ?thesis
      proof (cases "e = kNullEntity")
        case True
        from r have "s' = ?s3" by (auto simp add: HES_null_entity [OF dirty p Some e nopending True])
        with True have "s' = s\<lparr>selectionHelper := (selectionHelper s)\<lparr>selectEntity := kNullEntity\<rparr>,
                   mouseDirty := False,
                   trace := trace s @ [SceneVisualAt (camera s) (Pos (mouseEvent s)) (Some v)]\<rparr>"
          by simp
        with True e Some dirty p nopending show ?thesis by blast
      next
        case False
        from r obtain s4 where u: "UpdateSelectedEntity h ?s3 (Some v) (sendEvent (selectionHelper s)) = Inr s4"
          and s': "s' = s4\<lparr>selectionHelper := SelectionHelper_default\<rparr>"
          by (cases "UpdateSelectedEntity h ?s3 (Some v) (sendEvent (selectionHelper s))")
             (simp_all add: HES_select [OF dirty p Some e nopending False])
        from UpdateSelectedEntity_frame [OF u p3 e False] obtain wb k where
          s4: "s4 = ?s3\<lparr>selectedEntities :=
                          (if (\<not> keyboardCtrl h \<and> selectedEntities ?s3 \<noteq> []) \<or> transformControlActive ?s3
                           then [] else selectedEntities ?s3) @ [ucast (VisualId v)],
                        wireBoxes := wb, trace := trace ?s3 @ k\<rparr>"
          and d: "dom wb = insert e (dom (wireBoxes ?s3))"
          and us: "list_ex isUserSelection k" and q: "\<not> list_ex isRayCast k"
          and m: "SendEvent (EntitiesSelected
                    ((if (\<not> keyboardCtrl h \<and> selectedEntities ?s3 \<noteq> []) \<or> transformControlActive ?s3
                      then [] else selectedEntities ?s3) @ [ucast (VisualId v)]) True) \<in> set k"
          by blast
        let ?k = "SceneVisualAt (camera s) ?pos (Some v) # k"
        have "s' = s\<lparr>selectionHelper := SelectionHelper_default,
                     selectedEntities :=
                       (if (\<not> keyboardCtrl h \<and> selectedEntities s \<noteq> []) \<or> transformControlActive s
                        then [] else selectedEntities s) @ [ucast (VisualId v)],
                     wireBoxes := wb, mouseDirty := False, trace := trace s @ ?k\<rparr>"
          using s' s4 by simp
        moreover have "list_ex isUserSelection ?k" using us by simp
        moreover have "rayCastResult ?k = Some v" by simp
        moreover have "?k \<noteq> []" "hd ?k = SceneVisualAt (camera s) ?pos (Some v)"
          "\<not> list_ex isRayCast (tl ?k)" using q by simp_all
        moreover have "SendEvent (EntitiesSelected
               ((if (\<not> keyboardCtrl h \<and> selectedEntities s \<noteq> []) \<or> transformControlActive s
                 then [] else selectedEntities s) @ [ucast (VisualId v)]) True) \<in> set ?k"
          using m by (auto split: if_splits)
        moreover have "dom wb = insert e (dom (wireBoxes s))" using d by simp
        ultimately show ?thesis using dirty p Some e False nopending by blast
      qed
    qed
  qed
qed

subsection \<open>Steps and sessions\<close>

lemma Initialize_scene: "scene s = Some p \<Longrightarrow> Initialize h s = s"
  by (simp add: Initialize_def)

lemma Initialize_frame:
  "\<exists>sp cam i. Initialize h s = s\<lparr>scene := sp, camera := cam, trace := trace s @ i\<rparr> \<and>
              \<not> list_ex isUserSelection i \<and> \<not> list_ex isRayCast i"
proof (cases "scene s = None \<and> sceneFromFirstRenderEngine h \<noteq> None")
  case False
  then have "Initialize h s = s\<lparr>scene := scene s, camera := camera s, trace := trace s @ []\<rparr>"
    by (auto simp: Initialize_def)
  moreover have "\<not> list_ex isUserSelection []" "\<not> list_ex isRayCast []" by simp_all
  ultimately show ?thesis by blast
next
  case True
  then obtain p where p: "sceneFromFirstRenderEngine h = Some p" and n: "scene s = None" by auto
  let ?cam = "SensorByName (sceneObject h p) ''Scene3DCamera''"
  let ?i = "if ?cam = None then [IgnErr ''Camera is not available''] else []"
  have "Initialize h s = s\<lparr>scene := Some p, camera := ?cam, trace := trace s @ ?i\<rparr>"
    using p n by (simp add: Initialize_def Let_def)
  moreover have "\<not> list_ex isUserSelection ?i" "\<not> list_ex isRayCast ?i" by simp_all
  ultimately show ?thesis by blast
qed

lemma distinct_step:
  assumes r: "eventFilter h s ev = Inr s'" and d: "distinct (selectedEntities s)"
    and n: "\<not> reselects h s ev"
  shows "distinct (selectedEntities s')"
proof (cases ev)
  case (LeftClickOnScene m)
  with r d show ?thesis by (auto simp: eventFilter_def)
next
  case (TransformControlMode b)
  with r d show ?thesis by (auto simp: eventFilter_def)
next
  case OtherEvent
  with r d show ?thesis by (auto simp: eventFilter_def)
next
  case Render
  let ?s1 = "Initialize h s"
  from Initialize_frame [of h s] obtain sp cam i where
    s1: "?s1 = s\<lparr>scene := sp, camera := cam, trace := trace s @ i\<rparr>" by blast
  have f: "selectedEntities ?s1 = selectedEntities s" "mouseDirty ?s1 = mouseDirty s"
    "transformControlActive ?s1 = transformControlActive s" "mouseEvent ?s1 = mouseEvent s"
    by (simp_all add: s1)
  from r Render have hes: "HandleEntitySelection h ?s1 = Inr s'" by (simp add: eventFilter_def)
  from HES_outcome [OF hes] consider
      (idle) "s' = ?s1"
    | (cleared) "selectedEntities s' = []"
    | (ignored) "selectedEntities s' = selectedEntities ?s1"
    | (selected) p v where "mouseDirty ?s1" "scene ?s1 = Some p"
        "VisualAt (sceneObject h p) (camera ?s1) (Pos (mouseEvent ?s1)) = Some v"
        "selectedEntities s' =
           (if (\<not> keyboardCtrl h \<and> selectedEntities ?s1 \<noteq> []) \<or> transformControlActive ?s1
            then [] else selectedEntities ?s1) @ [ucast (VisualId v)]"
    by (elim disjE conjE exE) simp_all
  then show ?thesis
  proof cases
    case idle
    with d f show ?thesis by simp
  next
    case cleared
    then show ?thesis by simp
  next
    case ignored
    with d f show ?thesis by simp
  next
    case (selected p v)
    show ?thesis
    proof (cases "(\<not> keyboardCtrl h \<and> selectedEntities s \<noteq> []) \<or> transformControlActive s")
      case True
      with selected(4) f show ?thesis by simp
    next
      case False
      show ?thesis
      proof (cases "selectedEntities s = []")
        case True
        with selected(4) f show ?thesis by simp
      next
        case nonempty: False
        with False have "keyboardCtrl h" "\<not> transformControlActive s" by auto
        with n Render selected(1-3) f have "ucast (VisualId v) \<notin> set (selectedEntities s)"
          by (simp add: reselects_def)
        with False d selected(4) f show ?thesis by simp
      qed
    qed
  qed
qed

lemma distinct_run:
  "run s evs = Inr s' \<Longrightarrow> distinct (selectedEntities s) \<Longrightarrow> reselectFree s evs
   \<Longrightarrow> distinct (selectedEntities s')"
proof (induction evs arbitrary: s)
  case Nil
  then show ?case by simp
next
  case (Cons a rest)
  obtain h ev where a: "a = (h, ev)" by (cases a)
  from Cons.prems(1) a obtain s1 where s1: "eventFilter h s ev = Inr s1" and r: "run s1 rest = Inr s'"
    by (cases "eventFilter h s ev") simp_all
  from Cons.prems(3) a s1 have n: "\<not> reselects h s ev" and f: "reselectFree s1 rest" by simp_all
  from distinct_step [OF s1 Cons.prems(2) n] have "distinct (selectedEntities s1)" .
  from Cons.IH [OF r this f] show ?case .
qed

lemma helper_step:
  assumes r: "eventFilter h s ev = Inr s'" and d: "selectionHelper s = SelectionHelper_default"
  shows "selectionHelper s' = SelectionHelper_default"
proof (cases ev)
  case (LeftClickOnScene m)
  with r d show ?thesis by (auto simp: eventFilter_def)
next
  case (TransformControlMode b)
  with r d show ?thesis by (auto simp: eventFilter_def)
next
  case OtherEvent
  with r d show ?thesis by (auto simp: eventFilter_def)
next
  case Render
  let ?s1 = "Initialize h s"
  from Initialize_frame [of h s] obtain sp cam i where
    s1: "?s1 = s\<lparr>scene := sp, camera := cam, trace := trace s @ i\<rparr>" by blast
  have f: "selectionHelper ?s1 = SelectionHelper_default" using d by (simp add: s1)
  from r Render have hes: "HandleEntitySelection h ?s1 = Inr s'" by (simp add: eventFilter_def)
  from HES_outcome [OF hes] f show ?thesis
    by (elim disjE conjE exE) (auto simp add: SelectionHelper_default_def)
qed

lemma helper_run:
  "run s evs = Inr s' \<Longrightarrow> selectionHelper s = SelectionHelper_default
   \<Longrightarrow> selectionHelper s' = SelectionHelper_default"
proof (induction evs arbitrary: s)
  case Nil
  then show ?case by simp
next
  case (Cons a rest)
  obtain h ev where a: "a = (h, ev)" by (cases a)
  from Cons.prems(1) a obtain s1 where s1: "eventFilter h s ev = Inr s1" and r: "run s1 rest = Inr s'"
    by (cases "eventFilter h s ev") simp_all
  from Cons.IH [OF r helper_step [OF s1 Cons.prems(2)]] show ?case .
qed

lemma wireBoxes_step:
  assumes r: "eventFilter h s ev = Inr s'"
  shows "dom (wireBoxes s') = dom (wireBoxes s) \<union> set_option (selectedIn h s ev)"
proof (cases ev)
  case (LeftClickOnScene m)
  with r have "s' = s\<lparr>mouseEvent := m, mouseDirty := True\<rparr>" by (auto simp: eventFilter_def)
  with r show ?thesis by (simp add: selectedIn_def)
next
  case (TransformControlMode b)
  with r have "s' = s\<lparr>transformControlActive := b\<rparr>" by (auto simp: eventFilter_def)
  with r show ?thesis by (simp add: selectedIn_def)
next
  case OtherEvent
  with r have "s' = s" by (auto simp: eventFilter_def)
  with r show ?thesis by (simp add: selectedIn_def)
next
  case Render
  let ?s1 = "Initialize h s"
  from Initialize_frame [of h s] obtain sp cam i where
    s1: "?s1 = s\<lparr>scene := sp, camera := cam, trace := trace s @ i\<rparr>"
    and qi: "\<not> list_ex isUserSelection i" "\<not> list_ex isRayCast i" by blast
  from r Render have hes: "HandleEntitySelection h ?s1 = Inr s'" by (simp add: eventFilter_def)
  have sel: "selectedIn h s ev =
               (case rayCastResult (drop (length (trace s)) (trace s')) of
                  None \<Rightarrow> None
                | Some v \<Rightarrow>
                    if SendEvent (EntitiesSelected (selectedEntities s') True)
                         \<in> set (drop (length (trace s)) (trace s')) \<and>
                       selectedEntities s' \<noteq> [] \<and>
                       butlast (selectedEntities s') \<in> {[], selectedEntities s}
                    then (case gazeboEntity v of Inl f \<Rightarrow> None | Inr e \<Rightarrow> Some e)
                    else None)"
    using r by (simp add: selectedIn_def Let_def)
  from HES_outcome [OF hes] consider
      (quiet) k where "trace s' = trace ?s1 @ k" "\<not> list_ex isUserSelection k"
        "dom (wireBoxes s') = dom (wireBoxes ?s1)"
    | (selected) k v e where "trace s' = trace ?s1 @ k"
        "SendEvent (EntitiesSelected (selectedEntities s') True) \<in> set k"
        "rayCastResult k = Some v" "gazeboEntity v = Inr e"
        "dom (wireBoxes s') = insert e (dom (wireBoxes ?s1))"
        "selectedEntities s' \<noteq> []" "butlast (selectedEntities s') \<in> {[], selectedEntities ?s1}"
  proof (elim disjE conjE exE)
    assume "s' = ?s1"
    then have t: "trace s' = trace ?s1 @ []" and d: "dom (wireBoxes s') = dom (wireBoxes ?s1)"
      by simp_all
    have u: "\<not> list_ex isUserSelection []" by simp
    show ?thesis by (rule quiet [OF t u d])
  next
    fix p wb k helper
    assume u: "\<not> list_ex isUserSelection k"
      and w: "\<forall>e. wb e = wireBoxes ?s1 e \<or> wb e = map_option hideBox (wireBoxes ?s1 e)"
      and s': "s' = ?s1\<lparr>selectionHelper := helper, selectedEntities := [], wireBoxes := wb,
                         mouseDirty := False, trace := trace ?s1 @ k\<rparr>"
    from s' have t: "trace s' = trace ?s1 @ k" by simp
    from s' hidden_dom [OF w] have d: "dom (wireBoxes s') = dom (wireBoxes ?s1)" by simp
    show ?thesis by (rule quiet [OF t u d])
  next
    fix p v
    assume s': "s' = ?s1\<lparr>selectionHelper := (selectionHelper ?s1)\<lparr>selectEntity := kNullEntity\<rparr>,
                   mouseDirty := False,
                   trace := trace ?s1 @ [SceneVisualAt (camera ?s1) (Pos (mouseEvent ?s1)) (Some v)]\<rparr>"
    let ?k = "[SceneVisualAt (camera ?s1) (Pos (mouseEvent ?s1)) (Some v)]"
    from s' have t: "trace s' = trace ?s1 @ ?k" and d: "dom (wireBoxes s') = dom (wireBoxes ?s1)"
      by simp_all
    have u: "\<not> list_ex isUserSelection ?k" by simp
    show ?thesis by (rule quiet [OF t u d])
  next
    fix p v e wb k
    assume g: "gazeboEntity v = Inr e"
      and rc: "rayCastResult k = Some v"
      and m: "SendEvent (EntitiesSelected
               ((if (\<not> keyboardCtrl h \<and> selectedEntities ?s1 \<noteq> []) \<or> transformControlActive ?s1
                 then [] else selectedEntities ?s1) @ [ucast (VisualId v)]) True) \<in> set k"
      and d: "dom wb = insert e (dom (wireBoxes ?s1))"
      and s': "s' = ?s1\<lparr>selectionHelper := SelectionHelper_default,
                   selectedEntities :=
                     (if (\<not> keyboardCtrl h \<and> selectedEntities ?s1 \<noteq> []) \<or> transformControlActive ?s1
                      then [] else selectedEntities ?s1) @ [ucast (VisualId v)],
                   wireBoxes := wb, mouseDirty := False, trace := trace ?s1 @ k\<rparr>"
    from s' have t: "trace s' = trace ?s1 @ k" by simp
    from s' d have d': "dom (wireBoxes s') = insert e (dom (wireBoxes ?s1))" by simp
    from s' m have m': "SendEvent (EntitiesSelected (selectedEntities s') True) \<in> set k" by simp
    from s' have ne: "selectedEntities s' \<noteq> []" by simp
    from s' have bl: "butlast (selectedEntities s') \<in> {[], selectedEntities ?s1}" by simp
    show ?thesis by (rule selected [OF t m' rc g d' ne bl])
  qed
  then show ?thesis
  proof cases
    case (quiet k)
    from quiet(1) have n: "drop (length (trace s)) (trace s') = i @ k" by (simp add: s1)
    from quiet(2) qi have "\<not> list_ex isUserSelection (i @ k)" by simp
    then have "SendEvent (EntitiesSelected (selectedEntities s') True) \<notin> set (i @ k)"
      using userSelection_sent by blast
    with n have "selectedIn h s ev = None" by (simp add: sel split: option.split)
    with quiet(3) show ?thesis by (simp add: s1)
  next
    case (selected k v e)
    from selected(1) have n: "drop (length (trace s)) (trace s') = i @ k" by (simp add: s1)
    have "rayCastResult (i @ k) = Some v" using qi selected(3) by (simp add: rayCastResult_append)
    moreover have "butlast (selectedEntities s') \<in> {[], selectedEntities s}"
      using selected(7) by (simp add: s1)
    ultimately have "selectedIn h s ev = Some e" using n selected(2,4,6) by (simp add: sel)
    with selected(5) show ?thesis by (simp add: s1)
  qed
qed

lemma wireBoxes_run:
  "run s evs = Inr s' \<Longrightarrow> dom (wireBoxes s') = dom (wireBoxes s) \<union> everSelected s evs"
proof (induction evs arbitrary: s)
  case Nil
  then show ?case by simp
next
  case (Cons a rest)
  obtain h ev where a: "a = (h, ev)" by (cases a)
  from Cons.prems a obtain s1 where s1: "eventFilter h s ev = Inr s1" and r: "run s1 rest = Inr s'"
    by (cases "eventFilter h s ev") simp_all
  from Cons.IH [OF r] wireBoxes_step [OF s1] a s1 show ?case by auto
qed

lemma LowlightNode_hides:
  assumes "LowlightNode s (Some v) = Inr s'" and "gazeboEntity v = Inr e"
  shows "wireBoxes s' e = map_option hideBox (wireBoxes s e)"
proof (cases "wireBoxes s e")
  case None
  with assms show ?thesis by (auto simp: LowlightNode_def entityIdOf_def)
next
  case (Some wireBox)
  with assms show ?thesis
    by (cases "Parent wireBox") (auto simp: LowlightNode_def entityIdOf_def hideBox_def)
qed

lemma loop_hides:
  "DeselectAllEntities_loop sc s ids = Inr s' \<Longrightarrow> entity \<in> set ids \<Longrightarrow>
   VisualById sc (ucast entity) = Some v \<Longrightarrow> gazeboEntity v = Inr e \<Longrightarrow>
   wireBoxes s' e = map_option hideBox (wireBoxes s e)"
proof (induction ids arbitrary: s)
  case Nil
  then show ?case by simp
next
  case (Cons x rest)
  from Cons.prems(1) obtain s1 where l: "LowlightNode s (VisualById sc (ucast x)) = Inr s1"
    and r: "DeselectAllEntities_loop sc s1 rest = Inr s'"
    by (cases "LowlightNode s (VisualById sc (ucast x))") simp_all
  from LowlightNode_frame [OF l] have f1:
    "wireBoxes s1 e = wireBoxes s e \<or> wireBoxes s1 e = map_option hideBox (wireBoxes s e)" by auto
  from loop_frame [OF r] have f2:
    "wireBoxes s' e = wireBoxes s1 e \<or> wireBoxes s' e = map_option hideBox (wireBoxes s1 e)" by auto
  have idem: "map_option hideBox (map_option hideBox (wireBoxes s e)) = map_option hideBox (wireBoxes s e)"
    by (cases "wireBoxes s e") (simp_all add: hideBox_idem)
  show ?case
  proof (cases "entity \<in> set rest")
    case True
    from Cons.IH [OF r True Cons.prems(3,4)] f1 idem show ?thesis by auto
  next
    case False
    with Cons.prems(2) have "x = entity" by simp
    with l Cons.prems(3) have "LowlightNode s (Some v) = Inr s1" by simp
    from LowlightNode_hides [OF this Cons.prems(4)] f2 idem show ?thesis by auto
  qed
qed

subsection \<open>What deselection and a handled click do, exactly\<close>

lemma LowlightNode_exact:
  assumes "LowlightNode s visual = Inr s'" and "entityIdOf visual = Inr k"
  shows "wireBoxes s' e = (if e = k then map_option hideBox (wireBoxes s e) else wireBoxes s e)"
proof (cases "wireBoxes s k")
  case None
  with assms show ?thesis by (auto simp: LowlightNode_def)
next
  case (Some wireBox)
  with assms show ?thesis
    by (cases "Parent wireBox") (auto simp: LowlightNode_def hideBox_def)
qed

lemma loop_exact:
  "DeselectAllEntities_loop sc s ids = Inr s' \<Longrightarrow>
   wireBoxes s' e = (if e \<in> set (lowlitKeys sc ids) then map_option hideBox (wireBoxes s e)
                     else wireBoxes s e)"
proof (induction ids arbitrary: s)
  case Nil
  then show ?case by simp
next
  case (Cons x rest)
  from Cons.prems obtain s1 where l: "LowlightNode s (VisualById sc (ucast x)) = Inr s1"
    and r: "DeselectAllEntities_loop sc s1 rest = Inr s'"
    by (cases "LowlightNode s (VisualById sc (ucast x))") simp_all
  from l obtain k where k: "entityIdOf (VisualById sc (ucast x)) = Inr k"
    by (cases "entityIdOf (VisualById sc (ucast x))") (simp_all add: LowlightNode_def)
  have keys: "lowlitKeys sc (x # rest) = k # lowlitKeys sc rest" using k by simp
  have idem: "map_option hideBox (map_option hideBox (wireBoxes s e)) = map_option hideBox (wireBoxes s e)"
    by (cases "wireBoxes s e") (simp_all add: hideBox_idem)
  from Cons.IH [OF r] LowlightNode_exact [OF l k, of e] idem show ?case
    unfolding keys by auto
qed

lemma DeselectAllEntities_exact:
  assumes "DeselectAllEntities h s = Inr s'" and "scene s = Some p"
  shows "wireBoxes s' e =
           (if e \<in> set (lowlitKeys (sceneObject h p) (selectedEntities s))
            then map_option hideBox (wireBoxes s e) else wireBoxes s e)"
proof -
  from assms obtain s1 where l: "DeselectAllEntities_loop (sceneObject h p) s (selectedEntities s) = Inr s1"
    and s': "s' = s1\<lparr>selectedEntities := [], trace := trace s1 @ [SendEvent (DeselectAllEntitiesEvent True)]\<rparr>"
    by (cases "DeselectAllEntities_loop (sceneObject h p) s (selectedEntities s)")
       (auto simp: DeselectAllEntities_def)
  from loop_exact [OF l, of e] s' show ?thesis by simp
qed

lemma HES_ok:
  assumes dirty: "mouseDirty s" and p: "scene s = Some p"
    and rd: "entitiesReadable (sceneObject h p) (selectedEntities s)"
    and hr: "case VisualAt (sceneObject h p) (camera s) (Pos (mouseEvent s)) of
               None \<Rightarrow> True | Some v \<Rightarrow> holdsInt (UserData v ''gazebo-entity'')"
  shows "\<exists>s'. HandleEntitySelection h s = Inr s'"
proof (cases "VisualAt (sceneObject h p) (camera s) (Pos (mouseEvent s))")
  case None
  let ?s2 = "s\<lparr>mouseDirty := False,
               trace := trace s @ [SceneVisualAt (camera s) (Pos (mouseEvent s)) None]\<rparr>"
  have "scene ?s2 = Some p" "entitiesReadable (sceneObject h p) (selectedEntities ?s2)"
    using p rd by simp_all
  from DeselectAllEntities_ok [OF this] HES_no_hit [OF dirty p None] show ?thesis by simp
next
  case (Some v)
  with hr obtain e where e: "gazeboEntity v = Inr e"
    by (cases "UserData v ''gazebo-entity''") (simp_all add: gazeboEntity_def std_get_int_def holdsInt_def)
  let ?s3 = "s\<lparr>mouseDirty := False,
               trace := trace s @ [SceneVisualAt (camera s) (Pos (mouseEvent s)) (Some v)],
               selectionHelper := (selectionHelper s)\<lparr>selectEntity := e\<rparr>\<rparr>"
  have p3: "scene ?s3 = Some p" and rd3: "entitiesReadable (sceneObject h p) (selectedEntities ?s3)"
    using p rd by simp_all
  show ?thesis
  proof (cases "deselectAll (selectionHelper s)")
    case True
    from DeselectAllEntities_ok [OF p3 rd3] obtain s4 where "DeselectAllEntities h ?s3 = Inr s4" by blast
    with HES_pending [OF dirty p Some e True] show ?thesis by simp
  next
    case False
    show ?thesis
    proof (cases "e = kNullEntity")
      case True
      with HES_null_entity [OF dirty p Some e False True] show ?thesis by simp
    next
      case ne: False
      from UpdateSelectedEntity_ok [OF p3 e rd3, of "sendEvent (selectionHelper s)"] obtain s4 where
        "UpdateSelectedEntity h ?s3 (Some v) (sendEvent (selectionHelper s)) = Inr s4" by blast
      with HES_select [OF dirty p Some e False ne] show ?thesis by simp
    qed
  qed
qed

lemma Initialize_fields:
  "mouseDirty (Initialize h s) = mouseDirty s"
  "mouseEvent (Initialize h s) = mouseEvent s"
  "selectedEntities (Initialize h s) = selectedEntities s"
  "selectionHelper (Initialize h s) = selectionHelper s"
  "transformControlActive (Initialize h s) = transformControlActive s"
  "wireBoxes (Initialize h s) = wireBoxes s"
proof -
  from Initialize_frame [of h s] obtain sp cam i where
    "Initialize h s = s\<lparr>scene := sp, camera := cam, trace := trace s @ i\<rparr>" by blast
  then show "mouseDirty (Initialize h s) = mouseDirty s"
    "mouseEvent (Initialize h s) = mouseEvent s"
    "selectedEntities (Initialize h s) = selectedEntities s"
    "selectionHelper (Initialize h s) = selectionHelper s"
    "transformControlActive (Initialize h s) = transformControlActive s"
    "wireBoxes (Initialize h s) = wireBoxes s"
    by simp_all
qed

lemma lowlitKeys_resolved:
  "entitiesReadable sc ids \<Longrightarrow> entity \<in> set ids \<Longrightarrow> VisualById sc (ucast entity) = Some v \<Longrightarrow>
   gazeboEntity v = Inr e \<Longrightarrow> e \<in> set (lowlitKeys sc ids)"
proof (induction ids)
  case Nil
  then show ?case by simp
next
  case (Cons x rest)
  from Cons.prems(1) have rx: "case VisualById sc (ucast x) of None \<Rightarrow> True
                                | Some w \<Rightarrow> holdsInt (UserData w ''gazebo-entity'')"
    and rr: "entitiesReadable sc rest" by (simp_all add: entitiesReadable_def)
  from rx obtain k where k: "entityIdOf (VisualById sc (ucast x)) = Inr k"
    by (cases "VisualById sc (ucast x)")
       (auto simp: entityIdOf_def gazeboEntity_def std_get_int_def holdsInt_def split: Variant.splits)
  show ?case
  proof (cases "x = entity")
    case True
    with Cons.prems(3,4) k show ?thesis by (simp add: entityIdOf_def)
  next
    case False
    with Cons.prems(2) have "entity \<in> set rest" by simp
    from Cons.IH [OF rr this Cons.prems(3,4)] k show ?thesis by simp
  qed
qed

lemma DeselectAllEntities_hides:
  assumes r: "DeselectAllEntities h t = Inr t'" and p: "scene t = Some p"
    and m: "entity \<in> set (selectedEntities t)"
    and v: "VisualById (sceneObject h p) (ucast entity) = Some v" and e: "gazeboEntity v = Inr e"
  shows "wireBoxes t' e = map_option hideBox (wireBoxes t e)"
proof -
  from r p obtain s1 where l: "DeselectAllEntities_loop (sceneObject h p) t (selectedEntities t) = Inr s1"
    and t': "t' = s1\<lparr>selectedEntities := [], trace := trace s1 @ [SendEvent (DeselectAllEntitiesEvent True)]\<rparr>"
    by (cases "DeselectAllEntities_loop (sceneObject h p) t (selectedEntities t)")
       (auto simp: DeselectAllEntities_def)
  from loop_hides [OF l m v e] t' show ?thesis by simp
qed

section \<open>The claims\<close>

subsection \<open>C1: duplicates in the selection\<close>

text \<open>
  Claim C1, as the code has it. Along a session that starts with a selection free of
  duplicates and in which no click is handled with Control held, the transform control
  inactive, on a visual whose identifier is already in the selection, the selection stays
  free of duplicates.
\<close>

theorem selection_distinct_unless_reselected:
  "distinct (selectedEntities s) \<Longrightarrow> reselectFree s evs \<Longrightarrow> run s evs = Inr s'
   \<Longrightarrow> distinct (selectedEntities s')"
  by (rule distinct_run)

text \<open>An instance: from the constructed state, Control-clicking visual 5 and then visual 6
  gives the selection 5, 6.\<close>

theorem selection_distinct_unless_reselected_witness:
  "distinct (selectedEntities SelectEntitiesPrivate_new) \<and>
   reselectFree SelectEntitiesPrivate_new selectTwo \<and>
   run SelectEntitiesPrivate_new selectTwo = Inr afterSelectTwo \<and>
   selectedEntities afterSelectTwo = [5, 6] \<and>
   distinct (selectedEntities afterSelectTwo)"
proof -
  have d: "distinct (selectedEntities SelectEntitiesPrivate_new)"
    by (simp add: SelectEntitiesPrivate_new_def)
  have f: "reselectFree SelectEntitiesPrivate_new selectTwo"
    by (simp add: reselects_def plugin_defs demo_defs)
  have r: "run SelectEntitiesPrivate_new selectTwo = Inr afterSelectTwo"
    by (simp add: plugin_defs demo_defs)
  have l: "selectedEntities afterSelectTwo = [5, 6]"
    by (simp add: plugin_defs demo_defs)
  from selection_distinct_unless_reselected [OF d f r] d f r l show ?thesis by simp
qed

text \<open>Without the proviso the property fails: Control-clicking visual 5 twice, from the
  constructed state, leaves its identifier in the selection twice.\<close>

theorem ctrl_click_twice_duplicates:
  "map_sum id selectedEntities (run SelectEntitiesPrivate_new (selectOnce @ selectOnce)) = Inr [5, 5] \<and>
   map_sum id (distinct \<circ> selectedEntities) (run SelectEntitiesPrivate_new (selectOnce @ selectOnce)) = Inr False"
  by (simp add: plugin_defs demo_defs)

subsection \<open>C2: null scene\<close>

text \<open>
  Claim C2 at a click that arrives before any scene exists: \<^verbatim>\<open>Initialize\<close> returns early
  on the null scene, \<^verbatim>\<open>HandleEntitySelection\<close> is called all the same and calls
  \<^verbatim>\<open>this->scene->VisualAt\<close> on the null pointer.
\<close>

theorem click_before_scene_dereferences_null:
  "run SelectEntitiesPrivate_new [(noSceneHost, click), (noSceneHost, Render)] = Inl NullPointerDereference"
  by (simp add: plugin_defs demo_defs)

subsection \<open>C3: deselect-all empties the selection\<close>

text \<open>
  Claim C3, as the code has it. With a scene present, \<^verbatim>\<open>DeselectAllEntities\<close> returns
  with an empty selection when every selected identifier that the scene resolves to a
  visual carries an \<^verbatim>\<open>int\<close> under "gazebo-entity"; otherwise the call does not return:
  it ends in the exception of \<^verbatim>\<open>std::get<int>\<close>.
\<close>

theorem DeselectAllEntities_empties_selection:
  assumes "scene s = Some p"
  shows "if entitiesReadable (sceneObject h p) (selectedEntities s)
         then \<exists>s'. DeselectAllEntities h s = Inr s' \<and> selectedEntities s' = []
         else DeselectAllEntities h s = Inl BadVariantAccess"
proof (cases "entitiesReadable (sceneObject h p) (selectedEntities s)")
  case True
  from DeselectAllEntities_ok [OF assms True] obtain s' where r: "DeselectAllEntities h s = Inr s'"
    by blast
  from DeselectAllEntities_frame [OF r assms] have "selectedEntities s' = []" by auto
  with r True show ?thesis by simp
next
  case False
  with DeselectAllEntities_bad [OF assms False] show ?thesis by simp
qed

text \<open>An instance: after visual 5 has been selected, deselect-all empties the selection.\<close>

theorem DeselectAllEntities_empties_selection_witness:
  "scene afterSelect5 = Some 1 \<and>
   entitiesReadable (sceneObject (demoHost False None vis5) 1) (selectedEntities afterSelect5) \<and>
   map_sum id selectedEntities (DeselectAllEntities (demoHost False None vis5) afterSelect5) = Inr []"
proof -
  have p: "scene afterSelect5 = Some 1" by (simp add: plugin_defs demo_defs)
  have rd: "entitiesReadable (sceneObject (demoHost False None vis5) 1) (selectedEntities afterSelect5)"
    by (simp add: entitiesReadable_def holdsInt_def plugin_defs demo_defs)
  from DeselectAllEntities_empties_selection [OF p, of "demoHost False None vis5"] rd p
  show ?thesis by auto
qed

text \<open>Without the proviso the property fails: visual 5 is selected, its user data then
  stops holding an \<^verbatim>\<open>int\<close>, and deselect-all, with the scene present, throws.\<close>

theorem DeselectAllEntities_aborts_on_unreadable_entity:
  "run SelectEntitiesPrivate_new selectOnce = Inr afterSelect5 \<and>
   scene afterSelect5 = Some 1 \<and> selectedEntities afterSelect5 = [5] \<and>
   DeselectAllEntities (demoHost False None vis5_unreadable) afterSelect5 = Inl BadVariantAccess"
  by (simp add: plugin_defs demo_defs)

subsection \<open>C4: clicks are handled in the render callback\<close>

text \<open>
  Claim C4. The left-click handler stores the mouse event and sets the dirty flag, and does
  nothing else; the other non-render events touch neither the flag nor the selection. A
  render callback with the flag clear only runs \<^verbatim>\<open>Initialize\<close>, which changes at most the
  scene and camera pointers and logs at most the missing camera: no ray cast, no change of
  the selection, no event. After a render callback that returns the flag is clear, so the
  next render callback does not handle the same click again. A render callback with the
  flag set that returns has cast exactly one ray, first of all, from the camera at the
  recorded position, with the result \<open>clickHit\<close>, and has updated the selection from that
  result: on no visual, or with a deselect-all request pending, the selection is emptied
  and the deselect-all event sent; on a visual without entity nothing changes; otherwise
  one identifier is appended to the old selection or replaces it, the new selection is
  broadcast, and the clicked entity has a wire box. It does return when the scene is
  present and the user data it reads hold an \<^verbatim>\<open>int\<close>.
\<close>

theorem click_handling_deferred:
  "eventFilter h s (LeftClickOnScene m) = Inr (s\<lparr>mouseEvent := m, mouseDirty := True\<rparr>) \<and>
   eventFilter h s (TransformControlMode b) = Inr (s\<lparr>transformControlActive := b\<rparr>) \<and>
   eventFilter h s OtherEvent = Inr s \<and>
   (\<not> mouseDirty s \<longrightarrow> eventFilter h s Render = Inr (Initialize h s)) \<and>
   (\<exists>sp cam i. Initialize h s = s\<lparr>scene := sp, camera := cam, trace := trace s @ i\<rparr> \<and>
               set i \<subseteq> {IgnErr ''Camera is not available''}) \<and>
   (\<forall>s'. eventFilter h s Render = Inr s' \<longrightarrow>
      \<not> mouseDirty s' \<and> (\<forall>h'. eventFilter h' s' Render = Inr (Initialize h' s'))) \<and>
   (\<forall>s'. mouseDirty s \<longrightarrow> eventFilter h s Render = Inr s' \<longrightarrow>
      (\<exists>k. trace s' = trace (Initialize h s) @
                SceneVisualAt (camera (Initialize h s)) (Pos (mouseEvent s)) (clickHit h s) # k \<and>
            \<not> list_ex isRayCast k \<and>
            (case clickHit h s of
               None \<Rightarrow> selectedEntities s' = [] \<and> k = [SendEvent (DeselectAllEntitiesEvent True)]
             | Some v \<Rightarrow>
                 (\<exists>e. gazeboEntity v = Inr e \<and>
                    (if deselectAll (selectionHelper s)
                     then selectedEntities s' = [] \<and> k = [SendEvent (DeselectAllEntitiesEvent True)]
                     else if e = kNullEntity
                     then selectedEntities s' = selectedEntities s \<and> k = []
                     else selectedEntities s' \<noteq> [] \<and>
                          butlast (selectedEntities s') \<in> {[], selectedEntities s} \<and>
                          SendEvent (EntitiesSelected (selectedEntities s') True) \<in> set k \<and>
                          e \<in> dom (wireBoxes s')))))) \<and>
   (\<forall>p. mouseDirty s \<longrightarrow> scene (Initialize h s) = Some p \<longrightarrow>
      entitiesReadable (sceneObject h p) (selectedEntities s) \<longrightarrow>
      (case clickHit h s of None \<Rightarrow> True | Some v \<Rightarrow> holdsInt (UserData v ''gazebo-entity'')) \<longrightarrow>
      (\<exists>s'. eventFilter h s Render = Inr s'))"
proof (intro conjI)
  note f = Initialize_fields [of h s]
  let ?s1 = "Initialize h s"
  have idle: "eventFilter h0 s0 Render = Inr (Initialize h0 s0)" if "\<not> mouseDirty s0" for h0 s0
    using that Initialize_fields(1) [of h0 s0] by (simp add: eventFilter_def HES_idle)
  show "\<not> mouseDirty s \<longrightarrow> eventFilter h s Render = Inr (Initialize h s)"
    using idle by blast
  show "\<forall>s'. eventFilter h s Render = Inr s' \<longrightarrow>
          \<not> mouseDirty s' \<and> (\<forall>h'. eventFilter h' s' Render = Inr (Initialize h' s'))"
  proof (intro allI impI)
    fix s'
    assume "eventFilter h s Render = Inr s'"
    then have "HandleEntitySelection h (Initialize h s) = Inr s'" by (simp add: eventFilter_def)
    from HES_outcome [OF this] have "\<not> mouseDirty s'"
      by (elim disjE conjE exE) simp_all
    with idle show "\<not> mouseDirty s' \<and> (\<forall>h'. eventFilter h' s' Render = Inr (Initialize h' s'))"
      by blast
  qed
  show "\<exists>sp cam i. Initialize h s = s\<lparr>scene := sp, camera := cam, trace := trace s @ i\<rparr> \<and>
               set i \<subseteq> {IgnErr ''Camera is not available''}"
  proof (cases "scene s = None \<and> sceneFromFirstRenderEngine h \<noteq> None")
    case False
    then have "Initialize h s = s\<lparr>scene := scene s, camera := camera s, trace := trace s @ []\<rparr>"
      by (auto simp: Initialize_def)
    moreover have "set [] \<subseteq> {IgnErr ''Camera is not available''}" by simp
    ultimately show ?thesis by blast
  next
    case True
    then obtain p where p: "sceneFromFirstRenderEngine h = Some p" and n: "scene s = None" by auto
    let ?cam = "SensorByName (sceneObject h p) ''Scene3DCamera''"
    let ?i = "if ?cam = None then [IgnErr ''Camera is not available''] else []"
    have "Initialize h s = s\<lparr>scene := Some p, camera := ?cam, trace := trace s @ ?i\<rparr>"
      using p n by (simp add: Initialize_def Let_def)
    moreover have "set ?i \<subseteq> {IgnErr ''Camera is not available''}" by auto
    ultimately show ?thesis by blast
  qed
  show "\<forall>p. mouseDirty s \<longrightarrow> scene (Initialize h s) = Some p \<longrightarrow>
      entitiesReadable (sceneObject h p) (selectedEntities s) \<longrightarrow>
      (case clickHit h s of None \<Rightarrow> True | Some v \<Rightarrow> holdsInt (UserData v ''gazebo-entity'')) \<longrightarrow>
      (\<exists>s'. eventFilter h s Render = Inr s')"
  proof (intro allI impI)
    fix p
    assume d: "mouseDirty s" and p: "scene ?s1 = Some p"
      and rd: "entitiesReadable (sceneObject h p) (selectedEntities s)"
      and hr: "case clickHit h s of None \<Rightarrow> True | Some v \<Rightarrow> holdsInt (UserData v ''gazebo-entity'')"
    have "mouseDirty ?s1" "entitiesReadable (sceneObject h p) (selectedEntities ?s1)"
      "case VisualAt (sceneObject h p) (camera ?s1) (Pos (mouseEvent ?s1)) of
         None \<Rightarrow> True | Some v \<Rightarrow> holdsInt (UserData v ''gazebo-entity'')"
      using d rd hr p f by (simp_all add: clickHit_def)
    from HES_ok [OF this(1) p this(2,3)] show "\<exists>s'. eventFilter h s Render = Inr s'"
      by (simp add: eventFilter_def)
  qed
  show "\<forall>s'. mouseDirty s \<longrightarrow> eventFilter h s Render = Inr s' \<longrightarrow>
      (\<exists>k. trace s' = trace (Initialize h s) @
                SceneVisualAt (camera (Initialize h s)) (Pos (mouseEvent s)) (clickHit h s) # k \<and>
            \<not> list_ex isRayCast k \<and>
            (case clickHit h s of
               None \<Rightarrow> selectedEntities s' = [] \<and> k = [SendEvent (DeselectAllEntitiesEvent True)]
             | Some v \<Rightarrow>
                 (\<exists>e. gazeboEntity v = Inr e \<and>
                    (if deselectAll (selectionHelper s)
                     then selectedEntities s' = [] \<and> k = [SendEvent (DeselectAllEntitiesEvent True)]
                     else if e = kNullEntity
                     then selectedEntities s' = selectedEntities s \<and> k = []
                     else selectedEntities s' \<noteq> [] \<and>
                          butlast (selectedEntities s') \<in> {[], selectedEntities s} \<and>
                          SendEvent (EntitiesSelected (selectedEntities s') True) \<in> set k \<and>
                          e \<in> dom (wireBoxes s')))))"
  proof (intro allI impI)
    fix s'
    assume d: "mouseDirty s" and r: "eventFilter h s Render = Inr s'"
    let ?P = "\<lambda>k. trace s' = trace ?s1 @
                SceneVisualAt (camera ?s1) (Pos (mouseEvent s)) (clickHit h s) # k \<and>
            \<not> list_ex isRayCast k \<and>
            (case clickHit h s of
               None \<Rightarrow> selectedEntities s' = [] \<and> k = [SendEvent (DeselectAllEntitiesEvent True)]
             | Some v \<Rightarrow>
                 (\<exists>e. gazeboEntity v = Inr e \<and>
                    (if deselectAll (selectionHelper s)
                     then selectedEntities s' = [] \<and> k = [SendEvent (DeselectAllEntitiesEvent True)]
                     else if e = kNullEntity
                     then selectedEntities s' = selectedEntities s \<and> k = []
                     else selectedEntities s' \<noteq> [] \<and>
                          butlast (selectedEntities s') \<in> {[], selectedEntities s} \<and>
                          SendEvent (EntitiesSelected (selectedEntities s') True) \<in> set k \<and>
                          e \<in> dom (wireBoxes s'))))"
    have d1: "mouseDirty ?s1" using d f by simp
    from r have hes: "HandleEntitySelection h ?s1 = Inr s'" by (simp add: eventFilter_def)
    from HES_outcome [OF hes] d1 show "\<exists>k. ?P k"
    proof (elim disjE conjE exE)
      assume "\<not> mouseDirty ?s1"
      with d1 show ?thesis by simp
    next
      fix p wb k helper
      assume p: "scene ?s1 = Some p"
        and k: "k = [SceneVisualAt (camera ?s1) (Pos (mouseEvent ?s1))
                       (VisualAt (sceneObject h p) (camera ?s1) (Pos (mouseEvent ?s1))),
                     SendEvent (DeselectAllEntitiesEvent True)]"
        and c: "case VisualAt (sceneObject h p) (camera ?s1) (Pos (mouseEvent ?s1)) of
                  None \<Rightarrow> True
                | Some v \<Rightarrow> deselectAll (selectionHelper ?s1) \<and> \<not> isl (gazeboEntity v)"
        and s': "s' = ?s1\<lparr>selectionHelper := helper, selectedEntities := [], wireBoxes := wb,
                         mouseDirty := False, trace := trace ?s1 @ k\<rparr>"
      have ch: "clickHit h s = VisualAt (sceneObject h p) (camera ?s1) (Pos (mouseEvent ?s1))"
        using p f by (simp add: clickHit_def)
      have "?P [SendEvent (DeselectAllEntitiesEvent True)]"
      proof (cases "clickHit h s")
        case None
        with s' k ch f show ?thesis by simp
      next
        case (Some v)
        have hv: "VisualAt (sceneObject h p) (camera ?s1) (Pos (mouseEvent ?s1)) = Some v"
          using Some ch by simp
        from c hv have da: "deselectAll (selectionHelper s)" and ni: "\<not> isl (gazeboEntity v)"
          using f by simp_all
        from ni obtain e where e: "gazeboEntity v = Inr e" by (cases "gazeboEntity v") simp_all
        from Some s' k hv f da e show ?thesis by simp
      qed
      then show ?thesis by blast
    next
      fix p v
      assume p: "scene ?s1 = Some p"
        and hit: "VisualAt (sceneObject h p) (camera ?s1) (Pos (mouseEvent ?s1)) = Some v"
        and e: "gazeboEntity v = Inr kNullEntity" and np: "\<not> deselectAll (selectionHelper ?s1)"
        and s': "s' = ?s1\<lparr>selectionHelper := (selectionHelper ?s1)\<lparr>selectEntity := kNullEntity\<rparr>,
                   mouseDirty := False,
                   trace := trace ?s1 @ [SceneVisualAt (camera ?s1) (Pos (mouseEvent ?s1)) (Some v)]\<rparr>"
      have ch: "clickHit h s = Some v" using p hit f by (simp add: clickHit_def)
      have "?P []" using ch e np s' f by simp
      then show ?thesis by blast
    next
      fix p v e wb k
      assume p: "scene ?s1 = Some p"
        and hit: "VisualAt (sceneObject h p) (camera ?s1) (Pos (mouseEvent ?s1)) = Some v"
        and e: "gazeboEntity v = Inr e" and ne: "e \<noteq> kNullEntity"
        and np: "\<not> deselectAll (selectionHelper ?s1)"
        and k0: "k \<noteq> []" and hk: "hd k = SceneVisualAt (camera ?s1) (Pos (mouseEvent ?s1)) (Some v)"
        and q: "\<not> list_ex isRayCast (tl k)"
        and m: "SendEvent (EntitiesSelected
               ((if (\<not> keyboardCtrl h \<and> selectedEntities ?s1 \<noteq> []) \<or> transformControlActive ?s1
                 then [] else selectedEntities ?s1) @ [ucast (VisualId v)]) True) \<in> set k"
        and dw: "dom wb = insert e (dom (wireBoxes ?s1))"
        and s': "s' = ?s1\<lparr>selectionHelper := SelectionHelper_default,
                   selectedEntities :=
                     (if (\<not> keyboardCtrl h \<and> selectedEntities ?s1 \<noteq> []) \<or> transformControlActive ?s1
                      then [] else selectedEntities ?s1) @ [ucast (VisualId v)],
                   wireBoxes := wb, mouseDirty := False, trace := trace ?s1 @ k\<rparr>"
      have ch: "clickHit h s = Some v" using p hit f by (simp add: clickHit_def)
      from k0 hk have kk: "k = SceneVisualAt (camera ?s1) (Pos (mouseEvent s)) (Some v) # tl k"
        using f by (cases k) simp_all
      from m kk have m': "SendEvent (EntitiesSelected (selectedEntities s') True) \<in> set (tl k)"
        using s' by (cases k) auto
      have t: "trace s' = trace ?s1 @ SceneVisualAt (camera ?s1) (Pos (mouseEvent s)) (clickHit h s) # tl k"
        using s' kk ch by simp
      have l: "selectedEntities s' \<noteq> []" "butlast (selectedEntities s') \<in> {[], selectedEntities s}"
        using s' f by simp_all
      have w: "e \<in> dom (wireBoxes s')" using s' dw by simp
      have "?P (tl k)" using t q ch e ne np l m' w f by simp
      then show ?thesis by blast
    qed
  qed
qed (simp_all add: eventFilter_def)

text \<open>An instance: a render callback on the constructed state only initialises; a render
  callback after a click on empty space clears the flag; and a render callback after a
  click on visual 6 casts the ray at the recorded position (3, 4) and gives entity 10 a
  wire box.\<close>

theorem click_handling_deferred_witness:
  "\<not> mouseDirty SelectEntitiesPrivate_new \<and>
   eventFilter (demoHost False None vis5) SelectEntitiesPrivate_new Render =
     Inr (Initialize (demoHost False None vis5) SelectEntitiesPrivate_new) \<and>
   mouseDirty clickedAgain \<and>
   map_sum id mouseDirty (eventFilter (demoHost False None vis5) clickedAgain Render) = Inr False \<and>
   clickHit (demoHost False (Some vis6) vis5) clickedAgain = Some vis6 \<and>
   gazeboEntity vis6 = Inr 10 \<and>
   trace (Initialize (demoHost False (Some vis6) vis5) clickedAgain) = trace clickedAgain \<and>
   map_sum id (\<lambda>s'. hd (drop (length (trace clickedAgain)) (trace s')))
     (eventFilter (demoHost False (Some vis6) vis5) clickedAgain Render) =
     Inr (SceneVisualAt (Some 1) (3, 4) (Some vis6)) \<and>
   map_sum id (\<lambda>s'. 10 \<in> dom (wireBoxes s'))
     (eventFilter (demoHost False (Some vis6) vis5) clickedAgain Render) = Inr True"
proof -
  let ?h = "demoHost False None vis5"
  let ?g = "demoHost False (Some vis6) vis5"
  have a: "\<not> mouseDirty SelectEntitiesPrivate_new" by (simp add: SelectEntitiesPrivate_new_def)
  have b: "mouseDirty clickedAgain" and l: "selectedEntities clickedAgain = [5]"
    and nd: "\<not> deselectAll (selectionHelper clickedAgain)"
    and cam: "camera clickedAgain = Some 1" and pos: "Pos (mouseEvent clickedAgain) = (3, 4)"
    by (simp_all add: plugin_defs demo_defs)
  have r: "eventFilter ?h clickedAgain Render = Inr (projr (eventFilter ?h clickedAgain Render))"
    by (simp add: plugin_defs demo_defs)
  from click_handling_deferred [of ?h clickedAgain] r
  have "\<not> mouseDirty (projr (eventFilter ?h clickedAgain Render))" by blast
  with r have c: "map_sum id mouseDirty (eventFilter ?h clickedAgain Render) = Inr False"
    by (metis map_sum.simps(2))
  have i: "Initialize ?g clickedAgain = clickedAgain" by (simp add: plugin_defs demo_defs)
  have p: "scene (Initialize ?g clickedAgain) = Some 1" by (simp add: plugin_defs demo_defs)
  have ch: "clickHit ?g clickedAgain = Some vis6"
    using p by (simp add: clickHit_def demoHost_def demoScene_def)
  have e: "gazeboEntity vis6 = Inr 10" by (simp add: plugin_defs demo_defs)
  have n: "(10 :: Entity) \<noteq> kNullEntity" by (simp add: kNullEntity_def)
  have rd: "entitiesReadable (sceneObject ?g 1) (selectedEntities clickedAgain)"
    by (simp add: l entitiesReadable_def holdsInt_def demoHost_def demoScene_def vis5_def)
  have "holdsInt (UserData vis6 ''gazebo-entity'')" by (simp add: holdsInt_def vis6_def)
  with ch have hr: "case clickHit ?g clickedAgain of None \<Rightarrow> True
            | Some v \<Rightarrow> holdsInt (UserData v ''gazebo-entity'')"
    by simp
  note inst = click_handling_deferred [of ?g clickedAgain]
  from inst b p rd hr obtain s' where s': "eventFilter ?g clickedAgain Render = Inr s'" by blast
  from inst b s' obtain k where
    t: "trace s' = trace (Initialize ?g clickedAgain) @
          SceneVisualAt (camera (Initialize ?g clickedAgain)) (Pos (mouseEvent clickedAgain))
            (clickHit ?g clickedAgain) # k"
    and o: "case clickHit ?g clickedAgain of
               None \<Rightarrow> selectedEntities s' = [] \<and> k = [SendEvent (DeselectAllEntitiesEvent True)]
             | Some v \<Rightarrow>
                 (\<exists>e. gazeboEntity v = Inr e \<and>
                    (if deselectAll (selectionHelper clickedAgain)
                     then selectedEntities s' = [] \<and> k = [SendEvent (DeselectAllEntitiesEvent True)]
                     else if e = kNullEntity
                     then selectedEntities s' = selectedEntities clickedAgain \<and> k = []
                     else selectedEntities s' \<noteq> [] \<and>
                          butlast (selectedEntities s') \<in> {[], selectedEntities clickedAgain} \<and>
                          SendEvent (EntitiesSelected (selectedEntities s') True) \<in> set k \<and>
                          e \<in> dom (wireBoxes s')))"
    by blast
  from t have "hd (drop (length (trace clickedAgain)) (trace s')) = SceneVisualAt (Some 1) (3, 4) (Some vis6)"
    by (simp add: i ch cam pos)
  moreover from o have "10 \<in> dom (wireBoxes s')" using ch e n nd by simp
  ultimately have f:
    "map_sum id (\<lambda>s'. hd (drop (length (trace clickedAgain)) (trace s')))
       (eventFilter ?g clickedAgain Render) = Inr (SceneVisualAt (Some 1) (3, 4) (Some vis6)) \<and>
     map_sum id (\<lambda>s'. 10 \<in> dom (wireBoxes s')) (eventFilter ?g clickedAgain Render) = Inr True"
    using s' by simp
  have ti: "trace (Initialize ?g clickedAgain) = trace clickedAgain" using i by simp
  from click_handling_deferred [of ?h SelectEntitiesPrivate_new] a have
    "eventFilter ?h SelectEntitiesPrivate_new Render = Inr (Initialize ?h SelectEntitiesPrivate_new)"
    by blast
  with a b c ch e ti f show ?thesis by simp
qed

subsection \<open>C5: the transform control suppresses multi-selection\<close>

text \<open>
  Claim C5, as the code has it. In a state reached from the constructed one, with the
  transform control active, a render callback that handles a click on a visual with a
  non-null entity, whether Control is held or not, deselects first (the deselect-all event
  follows the ray cast and the log line, and the wire boxes that \<^verbatim>\<open>LowlightNode\<close> is
  called for are hidden) and then selects: it returns with a selection of exactly one
  identifier, sends that selection, and shows the wire box of the clicked entity. This
  holds when every identifier selected before that the scene resolves to a visual carries
  an \<^verbatim>\<open>int\<close> under "gazebo-entity"; otherwise the callback ends in the exception of
  \<^verbatim>\<open>std::get<int>\<close>.
\<close>

theorem transform_control_click_selects_one:
  assumes reach: "run SelectEntitiesPrivate_new evs = Inr s"
    and tca: "transformControlActive s" and dirty: "mouseDirty s"
    and p: "scene (Initialize h s) = Some p"
    and hit: "VisualAt (sceneObject h p) (camera (Initialize h s)) (Pos (mouseEvent s)) = Some v"
    and e: "gazeboEntity v = Inr e" and n: "e \<noteq> kNullEntity"
  shows "if entitiesReadable (sceneObject h p) (selectedEntities s)
         then \<exists>s' k. eventFilter h s Render = Inr s' \<and>
                length (selectedEntities s') = 1 \<and>
                trace s' = trace (Initialize h s) @
                  [SceneVisualAt (camera (Initialize h s)) (Pos (mouseEvent s)) (Some v),
                   StdErr (cerrLine True),
                   SendEvent (DeselectAllEntitiesEvent True)] @ k \<and>
                SendEvent (EntitiesSelected (selectedEntities s') True) \<in> set k \<and>
                (\<exists>b. wireBoxes s' e = Some b \<and> boxShown b) \<and>
                (\<forall>e'. e' \<noteq> e \<longrightarrow>
                   wireBoxes s' e' =
                     (if e' \<in> set (lowlitKeys (sceneObject h p) (selectedEntities s))
                      then map_option hideBox (wireBoxes s e') else wireBoxes s e'))
         else eventFilter h s Render = Inl BadVariantAccess"
proof -
  let ?s1 = "Initialize h s"
  let ?sc = "sceneObject h p"
  note f = Initialize_fields [of h s]
  have "selectionHelper SelectEntitiesPrivate_new = SelectionHelper_default"
    by (simp add: SelectEntitiesPrivate_new_def)
  from helper_run [OF reach this] have hd: "selectionHelper ?s1 = SelectionHelper_default"
    using f by simp
  then have np: "\<not> deselectAll (selectionHelper ?s1)" and se: "\<not> sendEvent (selectionHelper ?s1)"
    by (simp_all add: SelectionHelper_default_def)
  have d1: "mouseDirty ?s1" using dirty f by simp
  have h1: "VisualAt ?sc (camera ?s1) (Pos (mouseEvent ?s1)) = Some v" using hit f by simp
  let ?ray = "SceneVisualAt (camera ?s1) (Pos (mouseEvent ?s1)) (Some v)"
  let ?s3 = "?s1\<lparr>mouseDirty := False, trace := trace ?s1 @ [?ray],
               selectionHelper := (selectionHelper ?s1)\<lparr>selectEntity := e\<rparr>\<rparr>"
  let ?s0 = "?s3\<lparr>trace := trace ?s3 @ [StdErr (cerrLine (transformControlActive ?s3))]\<rparr>"
  have ef: "eventFilter h s Render =
              (case UpdateSelectedEntity h ?s3 (Some v) (sendEvent (selectionHelper ?s1)) of
                 Inl f \<Rightarrow> Inl f
               | Inr s4 \<Rightarrow> Inr (s4\<lparr>selectionHelper := SelectionHelper_default\<rparr>))"
    using HES_select [OF d1 p h1 e np n] by (simp add: eventFilter_def)
  have p3: "scene ?s3 = Some p" and p0: "scene ?s0 = Some p" using p by simp_all
  have t3: "transformControlActive ?s3" using tca f by simp
  have l0: "selectedEntities ?s0 = selectedEntities s" and w0: "wireBoxes ?s0 = wireBoxes s"
    using f by simp_all
  show ?thesis
  proof (cases "entitiesReadable ?sc (selectedEntities s)")
    case rd: True
    then have "entitiesReadable ?sc (selectedEntities ?s0)" using l0 by simp
    from DeselectAllEntities_ok [OF p0 this] obtain sd where dd: "DeselectAllEntities h ?s0 = Inr sd"
      by blast
    from DeselectAllEntities_frame [OF dd p0] obtain wbd where
      sd: "sd = ?s0\<lparr>selectedEntities := [], wireBoxes := wbd,
                   trace := trace ?s0 @ [SendEvent (DeselectAllEntitiesEvent True)]\<rparr>" by blast
    have exd: "\<And>e'. wireBoxes sd e' =
                 (if e' \<in> set (lowlitKeys ?sc (selectedEntities s))
                  then map_option hideBox (wireBoxes s e') else wireBoxes s e')"
      using DeselectAllEntities_exact [OF dd p0] l0 w0 by simp
    have pd: "scene sd = Some p" using sd p by simp
    from SetSelectedEntity_ok [OF pd e, of h] obtain s2 where ss: "SetSelectedEntity h sd (Some v) = Inr s2"
      by blast
    from SetSelectedEntity_frame [OF ss e n] obtain wb2 k2 where
      s2: "s2 = sd\<lparr>selectedEntities := selectedEntities sd @ [ucast (VisualId v)],
                   wireBoxes := wb2, trace := trace sd @ k2\<rparr>"
      and m2: "SendEvent (EntitiesSelected (selectedEntities sd @ [ucast (VisualId v)]) True) \<in> set k2"
      and b2: "\<exists>b. wb2 e = Some b \<and> boxShown b"
      and o2: "\<forall>e'. e' \<noteq> e \<longrightarrow> wb2 e' = wireBoxes sd e'" by blast
    let ?s4 = "s2\<lparr>trace := trace s2 @ [SendEvent (EntitiesSelected (selectedEntities s2) False)]\<rparr>"
    have u: "UpdateSelectedEntity h ?s3 (Some v) (sendEvent (selectionHelper ?s1)) = Inr ?s4"
      using t3 dd ss by (simp add: UpdateSelectedEntity_def Let_def)
    let ?s' = "?s4\<lparr>selectionHelper := SelectionHelper_default\<rparr>"
    let ?k = "k2 @ [SendEvent (EntitiesSelected (selectedEntities s2) False)]"
    have r: "eventFilter h s Render = Inr ?s'" using ef u by simp
    have ls: "selectedEntities ?s' = [ucast (VisualId v)]" using s2 sd by simp
    have "length (selectedEntities ?s') = 1" using ls by simp
    moreover have "trace ?s' = trace ?s1 @
                  [SceneVisualAt (camera ?s1) (Pos (mouseEvent s)) (Some v),
                   StdErr (cerrLine True),
                   SendEvent (DeselectAllEntitiesEvent True)] @ ?k"
      using s2 sd t3 f by simp
    moreover have "SendEvent (EntitiesSelected (selectedEntities ?s') True) \<in> set ?k"
      using m2 sd ls by simp
    moreover have "\<exists>b. wireBoxes ?s' e = Some b \<and> boxShown b" using b2 s2 by simp
    moreover have "\<forall>e'. e' \<noteq> e \<longrightarrow>
                   wireBoxes ?s' e' =
                     (if e' \<in> set (lowlitKeys ?sc (selectedEntities s))
                      then map_option hideBox (wireBoxes s e') else wireBoxes s e')"
      using o2 exd s2 by simp
    ultimately have "\<exists>s' k. eventFilter h s Render = Inr s' \<and>
                length (selectedEntities s') = 1 \<and>
                trace s' = trace ?s1 @
                  [SceneVisualAt (camera ?s1) (Pos (mouseEvent s)) (Some v),
                   StdErr (cerrLine True),
                   SendEvent (DeselectAllEntitiesEvent True)] @ k \<and>
                SendEvent (EntitiesSelected (selectedEntities s') True) \<in> set k \<and>
                (\<exists>b. wireBoxes s' e = Some b \<and> boxShown b) \<and>
                (\<forall>e'. e' \<noteq> e \<longrightarrow>
                   wireBoxes s' e' =
                     (if e' \<in> set (lowlitKeys ?sc (selectedEntities s))
                      then map_option hideBox (wireBoxes s e') else wireBoxes s e'))"
      using r by blast
    with rd show ?thesis by simp
  next
    case False
    then have "\<not> entitiesReadable ?sc (selectedEntities ?s3)" using f by simp
    moreover have "(\<not> keyboardCtrl h \<and> selectedEntities ?s3 \<noteq> []) \<or> transformControlActive ?s3"
      using t3 by simp
    ultimately have "UpdateSelectedEntity h ?s3 (Some v) (sendEvent (selectionHelper ?s1))
                       = Inl BadVariantAccess"
      using UpdateSelectedEntity_bad [OF p3] by blast
    with ef False show ?thesis by simp
  qed
qed

text \<open>An instance: visual 5 is selected, the transform control becomes active, and a
  Control-click on visual 6 (entity 10) leaves one identifier selected, the wire box of
  entity 10 shown and that of entity 9 hidden. A second instance: the same click as the
  first one handled, the scene pointer still null before the render callback.\<close>

theorem transform_control_click_selects_one_witness:
  "run SelectEntitiesPrivate_new armedSession = Inr armedState \<and>
   transformControlActive armedState \<and> mouseDirty armedState \<and>
   scene (Initialize (demoHost True (Some vis6) vis5) armedState) = Some 1 \<and>
   clickHit (demoHost True (Some vis6) vis5) armedState = Some vis6 \<and>
   gazeboEntity vis6 = Inr 10 \<and>
   entitiesReadable (sceneObject (demoHost True (Some vis6) vis5) 1) (selectedEntities armedState) \<and>
   selectedEntities armedState = [5] \<and>
   map_option (\<lambda>b. map_option Visible (Parent b)) (wireBoxes armedState 9) = Some (Some True) \<and>
   map_sum id (length \<circ> selectedEntities)
     (eventFilter (demoHost True (Some vis6) vis5) armedState Render) = Inr 1 \<and>
   map_sum id (\<lambda>s'. map_option boxShown (wireBoxes s' 10))
     (eventFilter (demoHost True (Some vis6) vis5) armedState Render) = Inr (Some True) \<and>
   map_sum id (\<lambda>s'. map_option (\<lambda>b. map_option Visible (Parent b)) (wireBoxes s' 9))
     (eventFilter (demoHost True (Some vis6) vis5) armedState Render) = Inr (Some (Some False)) \<and>
   run SelectEntitiesPrivate_new armedFirstSession = Inr armedFirst \<and>
   scene armedFirst = None \<and>
   map_sum id (length \<circ> selectedEntities)
     (eventFilter (demoHost True (Some vis6) vis5) armedFirst Render) = Inr 1"
proof -
  let ?h = "demoHost True (Some vis6) vis5"
  have r: "run SelectEntitiesPrivate_new armedSession = Inr armedState"
    by (simp add: plugin_defs demo_defs)
  have t: "transformControlActive armedState" and d: "mouseDirty armedState"
    and l: "selectedEntities armedState = [5]"
    and b: "map_option (\<lambda>b. map_option Visible (Parent b)) (wireBoxes armedState 9) = Some (Some True)"
    by (simp_all add: plugin_defs demo_defs)
  have p: "scene (Initialize ?h armedState) = Some 1" by (simp add: plugin_defs demo_defs)
  have hit: "VisualAt (sceneObject ?h 1) (camera (Initialize ?h armedState))
               (Pos (mouseEvent armedState)) = Some vis6"
    by (simp add: demoHost_def demoScene_def)
  have ch: "clickHit ?h armedState = Some vis6" using p hit by (simp add: clickHit_def)
  have e: "gazeboEntity vis6 = Inr 10" by (simp add: plugin_defs demo_defs)
  have n: "(10 :: Entity) \<noteq> kNullEntity" by (simp add: kNullEntity_def)
  have rd: "entitiesReadable (sceneObject ?h 1) (selectedEntities armedState)"
    by (simp add: l entitiesReadable_def holdsInt_def demoHost_def demoScene_def vis5_def)
  have keys: "lowlitKeys (sceneObject ?h 1) (selectedEntities armedState) = [9]"
    by (simp add: l demoHost_def demoScene_def vis5_def entityIdOf_def gazeboEntity_def std_get_int_def)
  from transform_control_click_selects_one [OF r t d p hit e n] rd keys b have a:
    "map_sum id (length \<circ> selectedEntities) (eventFilter ?h armedState Render) = Inr 1 \<and>
     map_sum id (\<lambda>s'. map_option boxShown (wireBoxes s' 10)) (eventFilter ?h armedState Render)
       = Inr (Some True) \<and>
     map_sum id (\<lambda>s'. map_option (\<lambda>b. map_option Visible (Parent b)) (wireBoxes s' 9))
       (eventFilter ?h armedState Render) = Inr (Some (Some False))"
    by (auto simp: hideBox_def)
  have r0: "run SelectEntitiesPrivate_new armedFirstSession = Inr armedFirst"
    by (simp add: plugin_defs demo_defs first_click_defs)
  have t0: "transformControlActive armedFirst" and d0: "mouseDirty armedFirst"
    and l0: "selectedEntities armedFirst = []" and n0: "scene armedFirst = None"
    by (simp_all add: plugin_defs demo_defs first_click_defs)
  have p0: "scene (Initialize ?h armedFirst) = Some 1" by (simp add: plugin_defs demo_defs first_click_defs)
  have hit0: "VisualAt (sceneObject ?h 1) (camera (Initialize ?h armedFirst))
               (Pos (mouseEvent armedFirst)) = Some vis6"
    by (simp add: demoHost_def demoScene_def)
  have rd0: "entitiesReadable (sceneObject ?h 1) (selectedEntities armedFirst)"
    by (simp add: l0 entitiesReadable_def)
  from transform_control_click_selects_one [OF r0 t0 d0 p0 hit0 e n] rd0 have c:
    "map_sum id (length \<circ> selectedEntities) (eventFilter ?h armedFirst Render) = Inr 1"
    by auto
  from a c r t d p ch e rd l b r0 n0 show ?thesis by simp
qed

text \<open>Without the proviso the property fails: visual 5 is selected, the transform control
  becomes active, the user data of visual 5 stops holding an \<^verbatim>\<open>int\<close>, and the click on
  visual 6 (entity 10) ends in the exception thrown while visual 5 is deselected.\<close>

theorem transform_control_click_aborts_on_unreadable_entity:
  "run SelectEntitiesPrivate_new armedSession = Inr armedState \<and>
   transformControlActive armedState \<and> mouseDirty armedState \<and> selectedEntities armedState = [5] \<and>
   VisualAt (sceneObject (demoHost True (Some vis6) vis5_unreadable) 1) (camera armedState)
     (Pos (mouseEvent armedState)) = Some vis6 \<and>
   gazeboEntity vis6 = Inr 10 \<and>
   eventFilter (demoHost True (Some vis6) vis5_unreadable) armedState Render = Inl BadVariantAccess"
  by (simp add: plugin_defs demo_defs)

subsection \<open>C6: the identifier that is stored\<close>

text \<open>
  Claim C6 at a click on visual 5, whose "gazebo-entity" user data is the entity 9:
  \<^verbatim>\<open>SetSelectedEntity\<close> appends \<^verbatim>\<open>_visual->Id()\<close>, the rendering id 5, and the event it
  sends carries 5, not the entity 9.
\<close>

theorem selection_records_rendering_id:
  "run SelectEntitiesPrivate_new selectOnce = Inr afterSelect5 \<and>
   gazeboEntity vis5 = Inr 9 \<and> VisualId vis5 = 5 \<and>
   selectedEntities afterSelect5 = [5] \<and>
   last (trace afterSelect5) = SendEvent (EntitiesSelected [5] True)"
  by (simp add: plugin_defs demo_defs)

subsection \<open>C7: wire boxes\<close>

text \<open>
  Claim C7. At the end of every session that starts from the constructed state, the
  wire-box map has an entry for an entity exactly when that entity was selected during the
  session, that is, when a render callback cast a ray that hit a visual carrying that
  entity, extended or replaced the selection by one identifier, and broadcast the new
  selection. And \<^verbatim>\<open>DeselectAllEntities\<close> removes no entry: it hides the parent visual of
  the wire box of every selected identifier that the scene resolves to a visual, and
  changes no wire box but those that \<^verbatim>\<open>LowlightNode\<close> is called for.
\<close>

theorem wireBoxes_iff_ever_selected:
  "(run SelectEntitiesPrivate_new evs = Inr s \<longrightarrow>
      (\<forall>e. e \<in> dom (wireBoxes s) \<longleftrightarrow> e \<in> everSelected SelectEntitiesPrivate_new evs)) \<and>
   (DeselectAllEntities h t = Inr t' \<longrightarrow> scene t = Some p \<longrightarrow>
      (\<forall>entity \<in> set (selectedEntities t). \<forall>v e.
          VisualById (sceneObject h p) (ucast entity) = Some v \<longrightarrow> gazeboEntity v = Inr e \<longrightarrow>
          wireBoxes t' e = map_option hideBox (wireBoxes t e)) \<and>
      (\<forall>e. wireBoxes t' e =
         (if e \<in> set (lowlitKeys (sceneObject h p) (selectedEntities t))
          then map_option hideBox (wireBoxes t e) else wireBoxes t e)))"
proof (intro conjI impI)
  assume "run SelectEntitiesPrivate_new evs = Inr s"
  from wireBoxes_run [OF this]
  show "\<forall>e. e \<in> dom (wireBoxes s) \<longleftrightarrow> e \<in> everSelected SelectEntitiesPrivate_new evs"
    by (simp add: SelectEntitiesPrivate_new_def)
next
  assume r: "DeselectAllEntities h t = Inr t'" and p: "scene t = Some p"
  show "\<forall>entity \<in> set (selectedEntities t). \<forall>v e.
          VisualById (sceneObject h p) (ucast entity) = Some v \<longrightarrow> gazeboEntity v = Inr e \<longrightarrow>
          wireBoxes t' e = map_option hideBox (wireBoxes t e)"
    using DeselectAllEntities_hides [OF r p] by blast
next
  assume r: "DeselectAllEntities h t = Inr t'" and p: "scene t = Some p"
  show "\<forall>e. wireBoxes t' e =
         (if e \<in> set (lowlitKeys (sceneObject h p) (selectedEntities t))
          then map_option hideBox (wireBoxes t e) else wireBoxes t e)"
    using DeselectAllEntities_exact [OF r p] by blast
qed

text \<open>An instance: after visual 5 (entity 9) has been selected the map has the one entry
  9, with a visible parent; after deselect-all the entry is still there, and its parent
  is hidden.\<close>

theorem wireBoxes_iff_ever_selected_witness:
  "run SelectEntitiesPrivate_new selectOnce = Inr afterSelect5 \<and>
   everSelected SelectEntitiesPrivate_new selectOnce = {9} \<and>
   dom (wireBoxes afterSelect5) = {9} \<and>
   scene afterSelect5 = Some 1 \<and> selectedEntities afterSelect5 = [5] \<and>
   map_option (\<lambda>b. map_option Visible (Parent b)) (wireBoxes afterSelect5 9) = Some (Some True) \<and>
   DeselectAllEntities (demoHost False None vis5) afterSelect5 =
     Inr (projr (DeselectAllEntities (demoHost False None vis5) afterSelect5)) \<and>
   dom (wireBoxes (projr (DeselectAllEntities (demoHost False None vis5) afterSelect5))) = {9} \<and>
   map_option (\<lambda>b. map_option Visible (Parent b))
     (wireBoxes (projr (DeselectAllEntities (demoHost False None vis5) afterSelect5)) 9) =
     Some (Some False)"
proof -
  let ?h = "demoHost False None vis5"
  let ?t = "projr (DeselectAllEntities ?h afterSelect5)"
  have r: "run SelectEntitiesPrivate_new selectOnce = Inr afterSelect5"
    by (simp add: plugin_defs demo_defs)
  have ev: "everSelected SelectEntitiesPrivate_new selectOnce = {9}"
    by (simp add: selectedIn_def plugin_defs demo_defs)
  have p: "scene afterSelect5 = Some 1" and l: "selectedEntities afterSelect5 = [5]"
    and b: "map_option (\<lambda>b. map_option Visible (Parent b)) (wireBoxes afterSelect5 9) = Some (Some True)"
    by (simp_all add: plugin_defs demo_defs)
  have d: "DeselectAllEntities ?h afterSelect5 = Inr ?t" by (simp add: plugin_defs demo_defs)
  have r5: "VisualById (sceneObject ?h 1) (ucast (5 :: Entity)) = Some vis5"
    by (simp add: demoHost_def demoScene_def)
  have e5: "gazeboEntity vis5 = Inr 9" by (simp add: plugin_defs demo_defs)
  note inst = wireBoxes_iff_ever_selected [of selectOnce afterSelect5 ?h afterSelect5 ?t 1]
  from inst r ev have dm: "dom (wireBoxes afterSelect5) = {9}" by blast
  from inst d p have "\<forall>entity\<in>set (selectedEntities afterSelect5). \<forall>v e.
         VisualById (sceneObject ?h 1) (ucast entity) = Some v \<longrightarrow> gazeboEntity v = Inr e \<longrightarrow>
         wireBoxes ?t e = map_option hideBox (wireBoxes afterSelect5 e)" by blast
  with l r5 e5 have hid: "wireBoxes ?t 9 = map_option hideBox (wireBoxes afterSelect5 9)"
    by simp
  from inst d p have "\<forall>e. wireBoxes ?t e =
         (if e \<in> set (lowlitKeys (sceneObject ?h 1) (selectedEntities afterSelect5))
          then map_option hideBox (wireBoxes afterSelect5 e) else wireBoxes afterSelect5 e)" by blast
  then have "\<forall>e. wireBoxes ?t e = wireBoxes afterSelect5 e
                 \<or> wireBoxes ?t e = map_option hideBox (wireBoxes afterSelect5 e)" by metis
  from hidden_dom [OF this] dm have dt: "dom (wireBoxes ?t) = {9}" by simp
  from hid b have "map_option (\<lambda>b. map_option Visible (Parent b)) (wireBoxes ?t 9) = Some (Some False)"
    by (auto simp: hideBox_def)
  with r ev dm p l b d dt show ?thesis by simp
qed

subsection \<open>C9: a click on empty space\<close>

text \<open>
  Claim C9, as the code has it. A render callback that handles a click whose ray cast
  returns no visual returns with an empty selection, has sent the deselect-all event
  right after the ray cast, and has hidden the wire box of every selected identifier that
  the scene resolves to a visual (and changed no wire box but those that
  \<^verbatim>\<open>LowlightNode\<close> is called for), whatever the Control key and the pending request are,
  when every selected identifier that the scene resolves to a visual carries an
  \<^verbatim>\<open>int\<close> under "gazebo-entity"; otherwise the callback ends in the exception of
  \<^verbatim>\<open>std::get<int>\<close>.
\<close>

theorem empty_click_deselects_all:
  assumes dirty: "mouseDirty s" and p: "scene (Initialize h s) = Some p"
    and miss: "VisualAt (sceneObject h p) (camera (Initialize h s)) (Pos (mouseEvent s)) = None"
  shows "if entitiesReadable (sceneObject h p) (selectedEntities s)
         then \<exists>s'. eventFilter h s Render = Inr s' \<and> selectedEntities s' = [] \<and>
              trace s' = trace (Initialize h s) @
                [SceneVisualAt (camera (Initialize h s)) (Pos (mouseEvent s)) None,
                 SendEvent (DeselectAllEntitiesEvent True)] \<and>
              (\<forall>entity \<in> set (selectedEntities s). \<forall>v e.
                  VisualById (sceneObject h p) (ucast entity) = Some v \<longrightarrow> gazeboEntity v = Inr e \<longrightarrow>
                  wireBoxes s' e = map_option hideBox (wireBoxes s e)) \<and>
              (\<forall>e. wireBoxes s' e =
                 (if e \<in> set (lowlitKeys (sceneObject h p) (selectedEntities s))
                  then map_option hideBox (wireBoxes s e) else wireBoxes s e))
         else eventFilter h s Render = Inl BadVariantAccess"
proof -
  let ?s1 = "Initialize h s"
  let ?sc = "sceneObject h p"
  let ?s2 = "?s1\<lparr>mouseDirty := False,
               trace := trace ?s1 @ [SceneVisualAt (camera ?s1) (Pos (mouseEvent ?s1)) None]\<rparr>"
  note f = Initialize_fields [of h s]
  have d1: "mouseDirty ?s1" using dirty f by simp
  have m1: "VisualAt ?sc (camera ?s1) (Pos (mouseEvent ?s1)) = None" using miss f by simp
  have ef: "eventFilter h s Render = DeselectAllEntities h ?s2"
    using HES_no_hit [OF d1 p m1] by (simp add: eventFilter_def)
  have p2: "scene ?s2 = Some p" using p by simp
  have l2: "selectedEntities ?s2 = selectedEntities s" and w2: "wireBoxes ?s2 = wireBoxes s"
    using f by simp_all
  show ?thesis
  proof (cases "entitiesReadable ?sc (selectedEntities s)")
    case rd: True
    then have "entitiesReadable ?sc (selectedEntities ?s2)" using l2 by simp
    from DeselectAllEntities_ok [OF p2 this] obtain s' where r: "DeselectAllEntities h ?s2 = Inr s'"
      by blast
    from DeselectAllEntities_frame [OF r p2] obtain wb where
      s': "s' = ?s2\<lparr>selectedEntities := [], wireBoxes := wb,
                   trace := trace ?s2 @ [SendEvent (DeselectAllEntitiesEvent True)]\<rparr>" by blast
    have ex: "\<forall>e. wireBoxes s' e =
                 (if e \<in> set (lowlitKeys ?sc (selectedEntities s))
                  then map_option hideBox (wireBoxes s e) else wireBoxes s e)"
      using DeselectAllEntities_exact [OF r p2] l2 w2 by simp
    have "\<forall>entity \<in> set (selectedEntities s). \<forall>v e.
            VisualById ?sc (ucast entity) = Some v \<longrightarrow> gazeboEntity v = Inr e \<longrightarrow>
            wireBoxes s' e = map_option hideBox (wireBoxes s e)"
      using ex lowlitKeys_resolved [OF rd] by simp
    moreover have "selectedEntities s' = []" using s' by simp
    moreover have "trace s' = trace ?s1 @
                [SceneVisualAt (camera ?s1) (Pos (mouseEvent s)) None,
                 SendEvent (DeselectAllEntitiesEvent True)]" using s' f by simp
    ultimately show ?thesis using ef r rd ex by simp
  next
    case False
    then have "\<not> entitiesReadable ?sc (selectedEntities ?s2)" using l2 by simp
    from DeselectAllEntities_bad [OF p2 this] ef False show ?thesis by simp
  qed
qed

text \<open>An instance: visual 5 is selected and the next click, with Control held, hits
  nothing: the selection is emptied, the deselect-all event is the last thing sent, and
  the wire box of entity 9 is hidden. A second instance: a click on empty space as the
  first one handled, the scene pointer still null before the render callback.\<close>

theorem empty_click_deselects_all_witness:
  "mouseDirty clickedAgain \<and> scene (Initialize (demoHost True None vis5) clickedAgain) = Some 1 \<and>
   clickHit (demoHost True None vis5) clickedAgain = None \<and>
   entitiesReadable (sceneObject (demoHost True None vis5) 1) (selectedEntities clickedAgain) \<and>
   selectedEntities clickedAgain = [5] \<and>
   map_option (\<lambda>b. map_option Visible (Parent b)) (wireBoxes clickedAgain 9) = Some (Some True) \<and>
   map_sum id selectedEntities (eventFilter (demoHost True None vis5) clickedAgain Render) = Inr [] \<and>
   map_sum id (last \<circ> trace) (eventFilter (demoHost True None vis5) clickedAgain Render) =
     Inr (SendEvent (DeselectAllEntitiesEvent True)) \<and>
   map_sum id (\<lambda>s'. map_option (\<lambda>b. map_option Visible (Parent b)) (wireBoxes s' 9))
     (eventFilter (demoHost True None vis5) clickedAgain Render) = Inr (Some (Some False)) \<and>
   mouseDirty firstClick \<and> scene firstClick = None \<and>
   scene (Initialize (demoHost True None vis5) firstClick) = Some 1 \<and>
   map_sum id selectedEntities (eventFilter (demoHost True None vis5) firstClick Render) = Inr [] \<and>
   map_sum id (last \<circ> trace) (eventFilter (demoHost True None vis5) firstClick Render) =
     Inr (SendEvent (DeselectAllEntitiesEvent True))"
proof -
  let ?h = "demoHost True None vis5"
  have d: "mouseDirty clickedAgain" and l: "selectedEntities clickedAgain = [5]"
    and b: "map_option (\<lambda>b. map_option Visible (Parent b)) (wireBoxes clickedAgain 9) = Some (Some True)"
    by (simp_all add: plugin_defs demo_defs)
  have p: "scene (Initialize ?h clickedAgain) = Some 1" by (simp add: plugin_defs demo_defs)
  have miss: "VisualAt (sceneObject ?h 1) (camera (Initialize ?h clickedAgain))
                (Pos (mouseEvent clickedAgain)) = None"
    by (simp add: demoHost_def demoScene_def)
  have ch: "clickHit ?h clickedAgain = None" using p miss by (simp add: clickHit_def)
  have rd: "entitiesReadable (sceneObject ?h 1) (selectedEntities clickedAgain)"
    by (simp add: l entitiesReadable_def holdsInt_def demoHost_def demoScene_def vis5_def)
  have r5: "VisualById (sceneObject ?h 1) (ucast (5 :: Entity)) = Some vis5"
    by (simp add: demoHost_def demoScene_def)
  have e5: "gazeboEntity vis5 = Inr 9" by (simp add: plugin_defs demo_defs)
  from empty_click_deselects_all [OF d p miss] rd l r5 e5 b have a:
    "map_sum id selectedEntities (eventFilter ?h clickedAgain Render) = Inr [] \<and>
     map_sum id (last \<circ> trace) (eventFilter ?h clickedAgain Render) =
       Inr (SendEvent (DeselectAllEntitiesEvent True)) \<and>
     map_sum id (\<lambda>s'. map_option (\<lambda>b. map_option Visible (Parent b)) (wireBoxes s' 9))
       (eventFilter ?h clickedAgain Render) = Inr (Some (Some False))"
    by (auto simp: hideBox_def)
  have d0: "mouseDirty firstClick" and n0: "scene firstClick = None"
    and l0: "selectedEntities firstClick = []"
    by (simp_all add: plugin_defs demo_defs first_click_defs)
  have p0: "scene (Initialize ?h firstClick) = Some 1" by (simp add: plugin_defs demo_defs first_click_defs)
  have miss0: "VisualAt (sceneObject ?h 1) (camera (Initialize ?h firstClick))
                (Pos (mouseEvent firstClick)) = None"
    by (simp add: demoHost_def demoScene_def)
  have rd0: "entitiesReadable (sceneObject ?h 1) (selectedEntities firstClick)"
    by (simp add: l0 entitiesReadable_def)
  from empty_click_deselects_all [OF d0 p0 miss0] rd0 have c:
    "map_sum id selectedEntities (eventFilter ?h firstClick Render) = Inr [] \<and>
     map_sum id (last \<circ> trace) (eventFilter ?h firstClick Render) =
       Inr (SendEvent (DeselectAllEntitiesEvent True))"
    by auto
  from a c d p ch rd l b d0 n0 p0 show ?thesis by simp
qed

text \<open>Without the proviso the property fails: visual 5 is selected, its user data stops
  holding an \<^verbatim>\<open>int\<close>, and the click on empty space ends in the exception.\<close>

theorem empty_click_aborts_on_unreadable_entity:
  "run SelectEntitiesPrivate_new (selectOnce @ [(demoHost True (Some vis5) vis5, click)]) = Inr clickedAgain \<and>
   mouseDirty clickedAgain \<and> scene clickedAgain = Some 1 \<and> selectedEntities clickedAgain = [5] \<and>
   VisualAt (sceneObject (demoHost False None vis5_unreadable) 1) (camera clickedAgain)
     (Pos (mouseEvent clickedAgain)) = None \<and>
   eventFilter (demoHost False None vis5_unreadable) clickedAgain Render = Inl BadVariantAccess"
  by (simp add: plugin_defs demo_defs)

subsection \<open>C10: deselect-all without a scene\<close>

text \<open>
  Claim C10. With a null scene pointer \<^verbatim>\<open>DeselectAllEntities\<close> returns the state as it
  was: the selection is unchanged and nothing is sent.
\<close>

theorem DeselectAllEntities_null_scene_noop:
  "scene s = None \<Longrightarrow> DeselectAllEntities h s = Inr s"
  by (simp add: DeselectAllEntities_def)

text \<open>An instance: a state without scene and with one selected identifier.\<close>

theorem DeselectAllEntities_null_scene_noop_witness:
  "scene (SelectEntitiesPrivate_new\<lparr>selectedEntities := [5]\<rparr>) = None \<and>
   DeselectAllEntities (demoHost False None vis5) (SelectEntitiesPrivate_new\<lparr>selectedEntities := [5]\<rparr>) =
     Inr (SelectEntitiesPrivate_new\<lparr>selectedEntities := [5]\<rparr>)"
proof -
  have "scene (SelectEntitiesPrivate_new\<lparr>selectedEntities := [5]\<rparr>) = None"
    by (simp add: SelectEntitiesPrivate_new_def)
  with DeselectAllEntities_null_scene_noop [OF this, of "demoHost False None vis5"]
  show ?thesis by simp
qed

end
